theory Spec2Isabelle
  imports Main
begin

section \<open>Regular expressions as used by \<open>crash_vm/asm.py\<close>\<close>

text \<open>
  The assembler classifies lines and tokens with Python's \<open>re.match\<close>. The patterns of
  the source use character classes, concatenation, ordered alternation, the greedy
  repetitions \<open>*\<close>, \<open>+\<close> and \<open>?\<close>, capturing groups that are neither nested nor
  repeated, and the anchors \<open>^\<close> and \<open>$\<close>. A string is a list of characters, one
  \<open>char\<close> per code point below 256.
\<close>

datatype regex =
    Eps
  | Cls string
  | Dot
  | Bol
  | Eol
  | Seq regex regex
  | Alt regex regex
  | Star regex
  | Group regex

text \<open>
  A matcher state is the text consumed so far, the text still to read and the groups
  captured so far. \<open>run r st\<close> lists every way in which \<open>r\<close> can match at \<open>st\<close>, in
  the order in which a backtracking matcher tries them: the left alternative before the
  right one, one more repetition before stopping. A repetition goes on only after a match
  of its body that has consumed some text; the bodies repeated in the source always do.
  \<open>.\<close> matches any character but a newline; \<open>$\<close> matches at the end and before a
  final newline. A group appends the text it has matched to the groups.
\<close>

type_synonym mstate = "string \<times> string \<times> string list"

definition remaining :: "mstate \<Rightarrow> string" where
  "remaining st = fst (snd st)"

function run :: "regex \<Rightarrow> mstate \<Rightarrow> mstate list" where
  "run Eps st = [st]"
| "run (Cls cs) (p, s, g) =
     (case s of [] \<Rightarrow> [] | c # s' \<Rightarrow> if c \<in> set cs then [(p @ [c], s', g)] else [])"
| "run Dot (p, s, g) =
     (case s of [] \<Rightarrow> [] | c # s' \<Rightarrow> if c \<noteq> CHR 0x0A then [(p @ [c], s', g)] else [])"
| "run Bol (p, s, g) = (if p = [] then [(p, s, g)] else [])"
| "run Eol (p, s, g) = (if s = [] \<or> s = [CHR 0x0A] then [(p, s, g)] else [])"
| "run (Seq a b) st = concat (map (run b) (run a st))"
| "run (Alt a b) st = run a st @ run b st"
| "run (Star a) st =
     concat (map (run (Star a))
       (filter (\<lambda>st'. length (remaining st') < length (remaining st)) (run a st))) @ [st]"
| "run (Group a) (p, s, g) =
     map (\<lambda>(p', s', g'). (p', s', g' @ [drop (length p) p'])) (run a (p, s, g))"
  by pat_completeness auto
termination
  by (relation "measures [\<lambda>(r, st). size r, \<lambda>(r, st). length (remaining st)]") auto

text \<open>The equation of \<open>Star\<close> is unfolded on demand only: as a rewrite rule it applies
  to its own right-hand side.\<close>

declare run.simps(8) [simp del]

definition Plus :: "regex \<Rightarrow> regex" where
  "Plus r = Seq r (Star r)"

definition Opt :: "regex \<Rightarrow> regex" where
  "Opt r = Alt r Eps"

fun Lit :: "string \<Rightarrow> regex" where
  "Lit [] = Eps"
| "Lit (c # cs) = Seq (Cls [c]) (Lit cs)"

fun alternatives :: "regex list \<Rightarrow> regex" where
  "alternatives [] = Eps"
| "alternatives [r] = r"
| "alternatives (r # rs) = Alt r (alternatives rs)"

text \<open>\<open>re.match(pattern, s)\<close>: the first match starting at the beginning of \<open>s\<close>, if
  there is one; the result is \<open>match.groups()\<close>.\<close>

definition re_match :: "regex \<Rightarrow> string \<Rightarrow> string list option" where
  "re_match r s = (case run r ([], s, []) of [] \<Rightarrow> None | (p, s', g) # _ \<Rightarrow> Some g)"

subsection \<open>The patterns of the source\<close>

definition digits :: string where
  "digits = ''0123456789''"

definition hex_digits :: string where
  "hex_digits = ''0123456789abcdefABCDEF''"

definition letters :: string where
  "letters = ''abcdefghijklmnopqrstuvwxyzABCDEFGHIJKLMNOPQRSTUVWXYZ''"

definition HEX_NUMBER_PATTERN :: regex where
  "HEX_NUMBER_PATTERN = Seq (Opt (Cls ''-+'')) (Seq (Lit ''0x'') (Plus (Cls hex_digits)))"

definition DEC_NUMBER_PATTERN :: regex where
  "DEC_NUMBER_PATTERN = Seq (Opt (Cls ''-+'')) (Plus (Cls digits))"

definition NUMBER_PATTERN :: regex where
  "NUMBER_PATTERN = Alt DEC_NUMBER_PATTERN HEX_NUMBER_PATTERN"

definition ADDRESS_LITERAL_PATTERN :: regex where
  "ADDRESS_LITERAL_PATTERN = NUMBER_PATTERN"

definition IDENTIFIER_FIRST_CHARACTER_PATTERN :: regex where
  "IDENTIFIER_FIRST_CHARACTER_PATTERN = Cls (letters @ ''_'')"

definition IDENTIFIER_CHARACTER_PATTERN :: regex where
  "IDENTIFIER_CHARACTER_PATTERN = Cls (letters @ ''_'' @ digits)"

definition SPACER_CHARACTER_PATTERN :: regex where
  "SPACER_CHARACTER_PATTERN = Cls [CHR '' '', CHR 0x09]"

definition LABEL_PATTERN :: regex where
  "LABEL_PATTERN =
     Seq IDENTIFIER_FIRST_CHARACTER_PATTERN (Seq (Star IDENTIFIER_CHARACTER_PATTERN) (Cls '':''))"

definition ADDRESS_PATTERN :: regex where
  "ADDRESS_PATTERN = Alt ADDRESS_LITERAL_PATTERN LABEL_PATTERN"

definition INDENTATION_PATTERN :: regex where
  "INDENTATION_PATTERN = Seq Bol (Star SPACER_CHARACTER_PATTERN)"

definition LINE_END_PATTERN :: regex where
  "LINE_END_PATTERN =
     Seq (Star SPACER_CHARACTER_PATTERN) (Seq (Opt (Seq (Cls ''#'') (Star Dot))) Eol)"

text \<open>
  \<open>Instructions\<close> and \<open>instruction_methods\<close> come from \<open>crash_vm/cpu.py\<close>, which is
  not among the sources: the catalog is a parameter, the list of the instruction names in
  the order of the enumeration, each with its number of arguments. The names are Python
  identifiers, so each stands for itself in the pattern.
\<close>

type_synonym catalog = "(string \<times> nat) list"

definition INSTRUCTION_NAME_PATTERN :: "catalog \<Rightarrow> regex" where
  "INSTRUCTION_NAME_PATTERN cat = alternatives (map (\<lambda>i. Lit (fst i)) cat)"

section \<open>Errors and value types\<close>

text \<open>
  The exceptions the assembler can raise: its own \<open>CompilationError\<close> with its message,
  \<open>ValueError\<close> from \<open>int()\<close>, \<open>KeyError\<close> with the missing key from a dictionary
  lookup, and the \<open>RuntimeError\<close> of \<open>produce_bytes_padded\<close>.
\<close>

datatype error =
    CompilationError string
  | ValueError
  | KeyError string
  | RuntimeError

text \<open>
  Modelled from the spec: \<open>NativeNumber\<close> and \<open>Address\<close> of \<open>crash_vm/_types.py\<close>,
  which is not among the sources. The spec calls them bounded-integer wrappers over the
  machine's native word range and its addressable range. The source builds one from any
  integer and then compares its \<open>value\<close> field with that integer to detect a value out
  of range, as for a fixed-width C integer type, whose constructor keeps the low bits.
  Such a type is given by its width and its signedness; \<open>to_value T v\<close> is
  \<open>T(v).value\<close>.
\<close>

record int_type =
  bits :: nat
  is_signed :: bool

definition to_value :: "int_type \<Rightarrow> int \<Rightarrow> int" where
  "to_value T v =
     (if is_signed T then (v + 2 ^ (bits T - 1)) mod 2 ^ bits T - 2 ^ (bits T - 1)
      else v mod 2 ^ bits T)"

text \<open>The external collaborators of the assembler: the two value types and the
  instruction catalog.\<close>

record vm =
  NativeNumber :: int_type
  Address :: int_type
  Instructions :: catalog

subsection \<open>Formatting and reading integers\<close>

text \<open>\<open>str(n)\<close> for an integer, as the f-strings of the error messages print it.\<close>

fun str_nat :: "nat \<Rightarrow> string" where
  "str_nat n = (if n < 10 then [digits ! n] else str_nat (n div 10) @ [digits ! (n mod 10)])"

declare str_nat.simps [simp del]

definition str_int :: "int \<Rightarrow> string" where
  "str_int i = (if i < 0 then CHR ''-'' # str_nat (nat (- i)) else str_nat (nat i))"

text \<open>
  The interpreter limits the conversions between integers and decimal text: with its
  default setting, \<open>sys.get_int_max_str_digits()\<close> is 4300, \<open>int(s)\<close> in a base that is
  not a power of two and \<open>str(n)\<close> raise \<open>ValueError\<close> when the number has more
  decimal digits than that. \<open>format_int n\<close> is \<open>str(n)\<close> for an integer of any size,
  \<open>None\<close> for the \<open>ValueError\<close>. The numbers of lines and of arguments are lengths of
  Python lists, and the values of \<open>Address\<close> objects are machine words: their texts
  have a few digits, and \<open>str_nat\<close> and \<open>str_int\<close> give them.
\<close>

definition int_max_str_digits :: nat where
  "int_max_str_digits = 4300"

definition format_int :: "int \<Rightarrow> string option" where
  "format_int i =
     (if int_max_str_digits < length (str_nat (nat \<bar>i\<bar>)) then None else Some (str_int i))"

text \<open>
  \<open>int(s, base)\<close> for a string: blanks around the number are ignored, a sign may come
  first, base 16 accepts a \<open>0x\<close> or \<open>0X\<close> prefix, and single underscores may separate
  digits. Anything else is a \<open>ValueError\<close>, here \<open>None\<close>, and so is a number of more
  than \<open>int_max_str_digits\<close> digits, underscores not counted, in a base that is not a
  power of two.
\<close>

definition py_isspace :: "char \<Rightarrow> bool" where
  "py_isspace c \<longleftrightarrow>
     c \<in> set [CHR 0x09, CHR 0x0A, CHR 0x0B, CHR 0x0C, CHR 0x0D, CHR '' '', CHR 0x85, CHR 0xA0]"

fun index_of :: "'a \<Rightarrow> 'a list \<Rightarrow> nat option" where
  "index_of x [] = None"
| "index_of x (y # ys) = (if x = y then Some 0 else map_option Suc (index_of x ys))"

definition digit_value :: "char \<Rightarrow> nat option" where
  "digit_value c =
     (case index_of c ''0123456789abcdefghijklmnopqrstuvwxyz'' of
        Some d \<Rightarrow> Some d
      | None \<Rightarrow> map_option (\<lambda>i. i + 10) (index_of c ''ABCDEFGHIJKLMNOPQRSTUVWXYZ''))"

text \<open>The digits of the number: the value read and the text left, or \<open>None\<close> for an
  underscore that follows another one or ends the digits.\<close>

fun scan_digits :: "nat \<Rightarrow> bool \<Rightarrow> nat \<Rightarrow> string \<Rightarrow> (nat \<times> string) option" where
  "scan_digits base prev_us acc [] = (if prev_us then None else Some (acc, []))"
| "scan_digits base prev_us acc (c # cs) =
     (if c = CHR ''_'' then (if prev_us then None else scan_digits base True acc cs)
      else (case digit_value c of
              Some d \<Rightarrow>
                if d < base then scan_digits base False (acc * base + d) cs
                else if prev_us then None else Some (acc, c # cs)
            | None \<Rightarrow> if prev_us then None else Some (acc, c # cs)))"

definition binary_base :: "nat \<Rightarrow> bool" where
  "binary_base base \<longleftrightarrow> base \<in> set [2, 4, 8, 16, 32]"

definition digit_count :: "string \<Rightarrow> nat" where
  "digit_count w = length (filter (\<lambda>c. c \<noteq> CHR ''_'') w)"

definition py_int :: "nat \<Rightarrow> string \<Rightarrow> int option" where
  "py_int base s =
     (let t = dropWhile py_isspace s;
          neg = (take 1 t = ''-'');
          t = (if take 1 t = ''-'' \<or> take 1 t = ''+'' then drop 1 t else t);
          t = (if base = 16 \<and> (take 2 t = ''0x'' \<or> take 2 t = ''0X'')
               then (if take 1 (drop 2 t) = ''_'' then drop 3 t else drop 2 t)
               else t)
      in if take 1 t = ''_'' then None
         else (case scan_digits base False 0 t of
                 None \<Rightarrow> None
               | Some (n, r) \<Rightarrow>
                   if r = t then None
                   else if dropWhile py_isspace r \<noteq> [] then None
                   else if \<not> binary_base base
                          \<and> int_max_str_digits < digit_count (take (length t - length r) t)
                     then None
                   else Some (if neg then - int n else int n)))"

subsection \<open>Numbers, addresses and labels\<close>

definition int_to_native_number :: "vm \<Rightarrow> int \<Rightarrow> error + int" where
  "int_to_native_number m v =
     (if v \<noteq> to_value (NativeNumber m) v
      then (case format_int v of
              None \<Rightarrow> Inl ValueError
            | Some text \<Rightarrow> Inl (CompilationError (''Value '' @ text @ '' is out of range'')))
      else Inr (to_value (NativeNumber m) v))"

definition parse_number :: "vm \<Rightarrow> string \<Rightarrow> error + int" where
  "parse_number m number_str =
     (if re_match HEX_NUMBER_PATTERN number_str \<noteq> None then
        (case py_int 16 number_str of None \<Rightarrow> Inl ValueError
         | Some v \<Rightarrow> int_to_native_number m v)
      else if re_match NUMBER_PATTERN number_str \<noteq> None then
        (case py_int 10 number_str of None \<Rightarrow> Inl ValueError
         | Some v \<Rightarrow> int_to_native_number m v)
      else Inl (CompilationError (''Invalid number value '' @ number_str)))"

definition int_to_address :: "vm \<Rightarrow> int \<Rightarrow> error + int" where
  "int_to_address m v =
     (if v \<noteq> to_value (Address m) v
      then (case format_int v of
              None \<Rightarrow> Inl ValueError
            | Some text \<Rightarrow> Inl (CompilationError (''Value '' @ text @ '' is out of range'')))
      else Inr (to_value (Address m) v))"

text \<open>\<open>Label(s)\<close>: the string itself when the whole of it is a label, colon included.\<close>

definition Label :: "string \<Rightarrow> error + string" where
  "Label string_value =
     (if re_match (Seq Bol (Seq LABEL_PATTERN Eol)) string_value = None
      then Inl (CompilationError ''Invalid label'')
      else Inr string_value)"

definition parse_address_literal :: "vm \<Rightarrow> string \<Rightarrow> error + int" where
  "parse_address_literal m address_str =
     (if re_match HEX_NUMBER_PATTERN address_str \<noteq> None then
        (case py_int 16 address_str of None \<Rightarrow> Inl ValueError
         | Some v \<Rightarrow> int_to_address m v)
      else if re_match NUMBER_PATTERN address_str \<noteq> None then
        (case py_int 10 address_str of None \<Rightarrow> Inl ValueError
         | Some v \<Rightarrow> int_to_address m v)
      else Inl (CompilationError (''Invalid address value '' @ address_str)))"

text \<open>A word of a line: an opcode, a number, an address or a label still to resolve.\<close>

datatype byte =
    Op string
  | Num int
  | Adr int
  | Lab string

text \<open>\<open>parse_address\<close>: only a \<open>CompilationError\<close> of the literal reading is caught.\<close>

definition parse_address :: "vm \<Rightarrow> string \<Rightarrow> (string \<rightharpoonup> int) option \<Rightarrow> error + byte" where
  "parse_address m address_str labels =
     (case parse_address_literal m address_str of
        Inr a \<Rightarrow> Inr (Adr a)
      | Inl (CompilationError msg) \<Rightarrow>
          if re_match LABEL_PATTERN address_str \<noteq> None then
            (case labels of
               None \<Rightarrow> map_sum id Lab (Label address_str)
             | Some tbl \<Rightarrow>
                 (case tbl address_str of
                    Some a \<Rightarrow> Inr (Adr a)
                  | None \<Rightarrow> Inl (CompilationError (''Invalid label '' @ address_str))))
          else Inl (CompilationError (''Invalid address value '' @ address_str))
      | Inl e \<Rightarrow> Inl e)"

section \<open>Lines\<close>

text \<open>
  The classes of lines, each with its pattern. Every line object carries the address it
  starts at; an \<open>OffsetLine\<close> also its offset, a \<open>LabelLine\<close> its label, a
  \<open>ValueLine\<close> its value, an \<open>InstructionLine\<close> its instruction and arguments.
\<close>

datatype line_class = EmptyLineC | OffsetLineC | LabelLineC | ValueLineC | InstructionLineC

datatype line =
    EmptyLine int
  | OffsetLine int int
  | LabelLine int string
  | ValueLine int int
  | InstructionLine int string "byte list"

fun Pattern :: "vm \<Rightarrow> line_class \<Rightarrow> regex" where
  "Pattern m EmptyLineC = Seq INDENTATION_PATTERN LINE_END_PATTERN"
| "Pattern m OffsetLineC =
     Seq INDENTATION_PATTERN (Seq (Lit ''Offset'') (Seq (Plus SPACER_CHARACTER_PATTERN)
       (Seq (Group ADDRESS_LITERAL_PATTERN) LINE_END_PATTERN)))"
| "Pattern m LabelLineC = Seq INDENTATION_PATTERN (Seq (Group LABEL_PATTERN) LINE_END_PATTERN)"
| "Pattern m ValueLineC = Seq INDENTATION_PATTERN (Seq (Group NUMBER_PATTERN) LINE_END_PATTERN)"
| "Pattern m InstructionLineC =
     Seq INDENTATION_PATTERN (Seq (Group (INSTRUCTION_NAME_PATTERN (Instructions m)))
       (Seq (Group (Star (Seq (Plus (Cls '' '')) ADDRESS_PATTERN))) LINE_END_PATTERN))"

fun address :: "line \<Rightarrow> int" where
  "address (EmptyLine a) = a"
| "address (OffsetLine a off) = a"
| "address (LabelLine a l) = a"
| "address (ValueLine a v) = a"
| "address (InstructionLine a i args) = a"

fun produced_bytes_padded_num :: "line \<Rightarrow> int" where
  "produced_bytes_padded_num (EmptyLine a) = 0"
| "produced_bytes_padded_num (OffsetLine a off) = off - a"
| "produced_bytes_padded_num (LabelLine a l) = 0"
| "produced_bytes_padded_num (ValueLine a v) = 1"
| "produced_bytes_padded_num (InstructionLine a i args) = 1 + int (length args)"

fun produced_bytes :: "line \<Rightarrow> byte list" where
  "produced_bytes (EmptyLine a) = []"
| "produced_bytes (OffsetLine a off) = []"
| "produced_bytes (LabelLine a l) = []"
| "produced_bytes (ValueLine a v) = [Num v]"
| "produced_bytes (InstructionLine a i args) = Op i # args"

definition produce_bytes_padded :: "line \<Rightarrow> error + byte list" where
  "produce_bytes_padded ln =
     (let produced = produced_bytes ln;
          produced_len = int (length produced);
          num = produced_bytes_padded_num ln
      in if produced_len > num then Inl RuntimeError
         else Inr (produced @ replicate (nat (num - produced_len)) (Num 0)))"

subsection \<open>Constructing a line\<close>

text \<open>The first failure of a sequence of fallible steps is the failure of the whole.\<close>

fun map_result :: "('a \<Rightarrow> 'e + 'b) \<Rightarrow> 'a list \<Rightarrow> 'e + 'b list" where
  "map_result f [] = Inr []"
| "map_result f (x # xs) =
     (case f x of
        Inl e \<Rightarrow> Inl e
      | Inr y \<Rightarrow> (case map_result f xs of Inl e \<Rightarrow> Inl e | Inr ys \<Rightarrow> Inr (y # ys)))"

text \<open>\<open>s.strip()\<close>, which removes the characters of \<open>str.isspace\<close> at both ends, and
  \<open>s.split(' ')\<close>.\<close>

definition str_isspace :: "char \<Rightarrow> bool" where
  "str_isspace c \<longleftrightarrow>
     c \<in> set [CHR 0x09, CHR 0x0A, CHR 0x0B, CHR 0x0C, CHR 0x0D, CHR 0x1C, CHR 0x1D, CHR 0x1E,
       CHR 0x1F, CHR '' '', CHR 0x85, CHR 0xA0]"

definition strip :: "string \<Rightarrow> string" where
  "strip s = rev (dropWhile str_isspace (rev (dropWhile str_isspace s)))"

fun split :: "char \<Rightarrow> string \<Rightarrow> string list" where
  "split sep [] = [[]]"
| "split sep (c # cs) =
     (if c = sep then [] # split sep cs
      else (case split sep cs of [] \<Rightarrow> [[c]] | w # ws \<Rightarrow> (c # w) # ws))"

definition OffsetLine_init :: "vm \<Rightarrow> int \<Rightarrow> string \<Rightarrow> error + line" where
  "OffsetLine_init m addr offset_str =
     (case parse_address_literal m offset_str of
        Inl e \<Rightarrow> Inl e
      | Inr off \<Rightarrow>
          if off < addr
          then Inl (CompilationError (''Inavalid offset '' @ str_int off @ '' at '' @ str_int addr))
          else Inr (OffsetLine addr off))"

definition LabelLine_init :: "vm \<Rightarrow> int \<Rightarrow> string \<Rightarrow> error + line" where
  "LabelLine_init m addr identifier =
     (case Label identifier of Inl e \<Rightarrow> Inl e | Inr l \<Rightarrow> Inr (LabelLine addr l))"

definition ValueLine_init :: "vm \<Rightarrow> int \<Rightarrow> string \<Rightarrow> error + line" where
  "ValueLine_init m addr val =
     (case parse_number m val of Inl e \<Rightarrow> Inl e | Inr v \<Rightarrow> Inr (ValueLine addr v))"

definition InstructionLine_init :: "vm \<Rightarrow> int \<Rightarrow> string \<Rightarrow> string \<Rightarrow> error + line" where
  "InstructionLine_init m addr instruction_name args_str =
     (let args = (if args_str \<noteq> [] then split (CHR '' '') (strip args_str) else [])
      in case map_of (Instructions m) instruction_name of
           None \<Rightarrow> Inl (CompilationError (''Invalid instruction '' @ instruction_name))
         | Some arg_num \<Rightarrow>
             if arg_num \<noteq> length args
             then Inl (CompilationError (''Instruction '' @ instruction_name @ '' takes ''
                         @ str_nat arg_num @ '' arguments, '' @ str_nat (length args) @ '' given''))
             else (case map_result (\<lambda>a. parse_address m a None) args of
                     Inl e \<Rightarrow> Inl e
                   | Inr bs \<Rightarrow> Inr (InstructionLine addr instruction_name bs)))"

text \<open>\<open>cls(address, *match.groups())\<close>: the pattern of each class has as many groups as
  its constructor takes strings.\<close>

fun construct :: "vm \<Rightarrow> line_class \<Rightarrow> int \<Rightarrow> string list \<Rightarrow> error + line" where
  "construct m EmptyLineC addr gs = Inr (EmptyLine addr)"
| "construct m OffsetLineC addr gs = OffsetLine_init m addr (gs ! 0)"
| "construct m LabelLineC addr gs = LabelLine_init m addr (gs ! 0)"
| "construct m ValueLineC addr gs = ValueLine_init m addr (gs ! 0)"
| "construct m InstructionLineC addr gs = InstructionLine_init m addr (gs ! 0) (gs ! 1)"

section \<open>The parser\<close>

definition classes :: "line_class list" where
  "classes = [EmptyLineC, OffsetLineC, ValueLineC, InstructionLineC, LabelLineC]"

text \<open>The first class, in the order of \<open>classes\<close>, whose pattern matches the line, with
  the groups of the match.\<close>

definition first_match :: "vm \<Rightarrow> string \<Rightarrow> (line_class \<times> string list option) option" where
  "first_match m ln =
     (case filter (\<lambda>p. snd p \<noteq> None) (map (\<lambda>c. (c, re_match (Pattern m c) ln)) classes) of
        [] \<Rightarrow> None
      | p # _ \<Rightarrow> Some p)"

definition parse_line :: "vm \<Rightarrow> int \<Rightarrow> string \<Rightarrow> error + line" where
  "parse_line m line_address ln =
     (case first_match m ln of
        None \<Rightarrow> Inl (CompilationError ''Invalid syntax'')
      | Some (cls, mt) \<Rightarrow> construct m cls (to_value (Address m) line_address) (the mt))"

text \<open>A \<open>CompilationError\<close> gets the number of its line in front of its message; any
  other exception passes unchanged.\<close>

fun annotate :: "nat \<Rightarrow> error \<Rightarrow> error" where
  "annotate line_number (CompilationError msg) =
     CompilationError (''Line '' @ str_nat line_number @ '': '' @ msg)"
| "annotate line_number e = e"

text \<open>The loop of \<open>parse\<close>, from a line number and a value of the address counter on.
  The lines are all consumed by \<open>compile\<close>, so the result is the list of the lines or the
  first error.\<close>

fun parse_from :: "vm \<Rightarrow> nat \<Rightarrow> int \<Rightarrow> string list \<Rightarrow> error + line list" where
  "parse_from m line_number line_address [] = Inr []"
| "parse_from m line_number line_address (ln # lns) =
     (case parse_line m line_address ln of
        Inl e \<Rightarrow> Inl (annotate line_number e)
      | Inr l \<Rightarrow>
          (case parse_from m (line_number + 1) (line_address + produced_bytes_padded_num l) lns of
             Inl e \<Rightarrow> Inl e
           | Inr ls \<Rightarrow> Inr (l # ls)))"

definition parse_lines :: "vm \<Rightarrow> string list \<Rightarrow> error + line list" where
  "parse_lines m lns = parse_from m 1 0 lns"

definition parse :: "vm \<Rightarrow> string \<Rightarrow> error + line list" where
  "parse m src = parse_lines m (split (CHR 0x0A) src)"

section \<open>The compiler\<close>

text \<open>The dictionary comprehension of the first pass: a later \<open>LabelLine\<close> with the same
  label replaces the entry of an earlier one.\<close>

fun add_label :: "(string \<rightharpoonup> int) \<Rightarrow> line \<Rightarrow> (string \<rightharpoonup> int)" where
  "add_label tbl (LabelLine a l) = tbl(l \<mapsto> a)"
| "add_label tbl ln = tbl"

definition labels_of :: "line list \<Rightarrow> (string \<rightharpoonup> int)" where
  "labels_of parsed = foldl add_label Map.empty parsed"

fun resolve :: "(string \<rightharpoonup> int) \<Rightarrow> byte \<Rightarrow> error + byte" where
  "resolve labels (Lab l) = (case labels l of None \<Rightarrow> Inl (KeyError l) | Some a \<Rightarrow> Inr (Adr a))"
| "resolve labels b = Inr b"

definition encode_line :: "(string \<rightharpoonup> int) \<Rightarrow> line \<Rightarrow> error + byte list" where
  "encode_line labels ln =
     (case produce_bytes_padded ln of Inl e \<Rightarrow> Inl e | Inr bs \<Rightarrow> map_result (resolve labels) bs)"

definition compile_parsed :: "line list \<Rightarrow> error + byte list" where
  "compile_parsed parsed =
     (case map_result (encode_line (labels_of parsed)) parsed of
        Inl e \<Rightarrow> Inl e
      | Inr bss \<Rightarrow> Inr (concat bss))"

definition compile :: "vm \<Rightarrow> string \<Rightarrow> error + byte list" where
  "compile m src = (case parse m src of Inl e \<Rightarrow> Inl e | Inr parsed \<Rightarrow> compile_parsed parsed)"

section \<open>Notions used to state the properties\<close>

text \<open>The representable range of a value type: the least and the greatest value that
  its constructor leaves unchanged.\<close>

definition range_min :: "int_type \<Rightarrow> int" where
  "range_min T = (if is_signed T then - (2 ^ (bits T - 1)) else 0)"

definition range_max :: "int_type \<Rightarrow> int" where
  "range_max T = (if is_signed T then 2 ^ (bits T - 1) - 1 else 2 ^ bits T - 1)"

text \<open>The error of \<open>int_to_native_number\<close> and \<open>int_to_address\<close> for a value out of
  range.\<close>

definition out_of_range :: "int \<Rightarrow> error" where
  "out_of_range v = CompilationError (''Value '' @ str_int v @ '' is out of range'')"

text \<open>
  The integer a literal denotes, read off its characters by their codes: a literal is an
  optional sign followed by decimal digits, or by \<open>0x\<close> and hexadecimal digits.
\<close>

definition digit_of_char :: "char \<Rightarrow> nat" where
  "digit_of_char c =
     (let n = of_char c :: nat
      in if 48 \<le> n \<and> n \<le> 57 then n - 48 else if 97 \<le> n \<and> n \<le> 102 then n - 87 else n - 55)"

definition positional_value :: "nat \<Rightarrow> string \<Rightarrow> nat" where
  "positional_value base ds = foldl (\<lambda>acc c. acc * base + digit_of_char c) 0 ds"

definition signed_value :: "string \<Rightarrow> nat \<Rightarrow> int" where
  "signed_value sg n = (if sg = ''-'' then - int n else int n)"

definition is_sign :: "string \<Rightarrow> bool" where
  "is_sign sg \<longleftrightarrow> sg = [] \<or> sg = ''+'' \<or> sg = ''-''"

text \<open>The addresses of the \<open>LabelLine\<close>s that declare a label, in the order of the
  program.\<close>

definition declarations :: "string \<Rightarrow> line list \<Rightarrow> int list" where
  "declarations l parsed =
     concat (map (\<lambda>ln. case ln of LabelLine a k \<Rightarrow> if k = l then [a] else [] | _ \<Rightarrow> []) parsed)"

text \<open>The words of a line followed by its padding, and the condition under which
  \<open>produce_bytes_padded\<close> returns them.\<close>

definition padded_bytes :: "line \<Rightarrow> byte list" where
  "padded_bytes ln = produced_bytes ln @
     replicate (nat (produced_bytes_padded_num ln - int (length (produced_bytes ln)))) (Num 0)"

definition padded_ok :: "line \<Rightarrow> bool" where
  "padded_ok ln \<longleftrightarrow> int (length (produced_bytes ln)) \<le> produced_bytes_padded_num ln"

text \<open>An instruction name as the enumeration of the instructions can declare it: letters,
  digits and underscores, not starting with a digit.\<close>

definition is_identifier :: "string \<Rightarrow> bool" where
  "is_identifier n \<longleftrightarrow> n \<noteq> [] \<and> set n \<subseteq> set (letters @ ''_'' @ digits) \<and> hd n \<notin> set digits"

text \<open>The part of the pattern of an \<open>InstructionLine\<close> that follows the name of the
  instruction.\<close>

definition ARGUMENTS_PATTERN :: regex where
  "ARGUMENTS_PATTERN = Seq (Group (Star (Seq (Plus (Cls '' '')) ADDRESS_PATTERN))) LINE_END_PATTERN"

text \<open>The labels a line refers to: those among its words.\<close>

definition references :: "line \<Rightarrow> string list" where
  "references ln = concat (map (\<lambda>b. case b of Lab l \<Rightarrow> [l] | _ \<Rightarrow> []) (produced_bytes ln))"

text \<open>A machine to run the scenarios on: unsigned bytes for numbers and addresses, and
  three instructions.\<close>

definition c_ubyte :: int_type where
  "c_ubyte = \<lparr>bits = 8, is_signed = False\<rparr>"

definition example_vm :: vm where
  "example_vm = \<lparr>NativeNumber = c_ubyte, Address = c_ubyte,
     Instructions = [(''ADD'', 2), (''JMP'', 1), (''NOP'', 0)]\<rparr>"

section \<open>Properties of the matcher\<close>

lemma run_Star_nonempty [simp]: "run (Star a) st \<noteq> []"
  by (subst run.simps) simp

lemma run_Star_Cls_Nil [simp]: "run (Star (Cls cs)) (p, [], g) = [(p, [], g)]"
  by (subst run.simps) simp

lemma run_Star_Cls_Cons [simp]:
  "run (Star (Cls cs)) (p, c # s, g) =
     (if c \<in> set cs then run (Star (Cls cs)) (p @ [c], s, g) @ [(p, c # s, g)] else [(p, c # s, g)])"
  by (subst run.simps) (simp add: remaining_def)

lemma run_Star_Dot_Nil [simp]: "run (Star Dot) (p, [], g) = [(p, [], g)]"
  by (subst run.simps) simp

lemma run_Star_Dot_Cons [simp]:
  "run (Star Dot) (p, c # s, g) =
     (if c \<noteq> CHR 0x0A then run (Star Dot) (p @ [c], s, g) @ [(p, c # s, g)] else [(p, c # s, g)])"
  by (subst run.simps) (simp add: remaining_def)

lemma re_match_None_iff: "re_match r s = None \<longleftrightarrow> run r ([], s, []) = []"
  by (auto simp: re_match_def split: list.splits)

lemma run_Seq_iff: "st' \<in> set (run (Seq a b) st) \<longleftrightarrow> (\<exists>mid\<in>set (run a st). st' \<in> set (run b mid))"
  by simp

lemma run_Eol: "st' \<in> set (run Eol st) \<Longrightarrow> remaining st' = [] \<or> remaining st' = [CHR 0x0A]"
  by (cases st) (auto simp: remaining_def split: if_splits)

lemma run_LINE_END:
  "st' \<in> set (run LINE_END_PATTERN st) \<Longrightarrow> remaining st' = [] \<or> remaining st' = [CHR 0x0A]"
  unfolding LINE_END_PATTERN_def run_Seq_iff by (blast dest: run_Eol)

lemma run_Pattern_whole_line:
  "st' \<in> set (run (Pattern m c) st) \<Longrightarrow> remaining st' = [] \<or> remaining st' = [CHR 0x0A]"
  by (cases c) (simp_all only: Pattern.simps run_Seq_iff, (blast dest: run_LINE_END)+)

lemmas pattern_defs = HEX_NUMBER_PATTERN_def DEC_NUMBER_PATTERN_def NUMBER_PATTERN_def
  ADDRESS_LITERAL_PATTERN_def IDENTIFIER_FIRST_CHARACTER_PATTERN_def IDENTIFIER_CHARACTER_PATTERN_def
  SPACER_CHARACTER_PATTERN_def LABEL_PATTERN_def ADDRESS_PATTERN_def INDENTATION_PATTERN_def
  LINE_END_PATTERN_def Plus_def Opt_def digits_def hex_digits_def letters_def

lemmas number_defs = HEX_NUMBER_PATTERN_def DEC_NUMBER_PATTERN_def NUMBER_PATTERN_def Plus_def Opt_def

lemmas int_defs = py_int_def py_isspace_def digit_value_def binary_base_def digit_count_def
  int_max_str_digits_def format_int_def

lemmas line_defs = parse_line_def first_match_def classes_def re_match_def pattern_defs remaining_def
      ValueLine_init_def OffsetLine_init_def parse_number_def parse_address_literal_def int_defs
      int_to_native_number_def int_to_address_def

lemmas compile_defs = compile_parsed_def labels_of_def encode_line_def produce_bytes_padded_def

section \<open>Value types and literals\<close>

lemma to_value_eq_iff:
  assumes "0 < bits T"
  shows "to_value T v = v \<longleftrightarrow> range_min T \<le> v \<and> v \<le> range_max T"
proof (cases "is_signed T")
  case False
  have "v mod 2 ^ bits T = v \<longleftrightarrow> 0 \<le> v \<and> v < 2 ^ bits T"
    by (metis mod_pos_pos_trivial pos_mod_bound pos_mod_sign zero_less_numeral zero_less_power)
  with False show ?thesis by (simp add: to_value_def range_min_def range_max_def)
next
  case True
  define h :: int where "h = 2 ^ (bits T - 1)"
  have h: "0 < h" by (simp add: h_def)
  have p: "(2::int) ^ bits T = 2 * h"
    using assms by (cases "bits T") (simp_all add: h_def)
  have "(v + h) mod (2 * h) = v + h \<longleftrightarrow> 0 \<le> v + h \<and> v + h < 2 * h"
    using h by (metis mod_pos_pos_trivial pos_mod_bound pos_mod_sign mult_pos_pos zero_less_numeral)
  then have "(v + h) mod (2 * h) - h = v \<longleftrightarrow> - h \<le> v \<and> v \<le> h - 1" by auto
  moreover have "to_value T v = (v + h) mod (2 * h) - h"
    unfolding to_value_def p using True by (simp add: h_def)
  moreover have "range_min T = - h" "range_max T = h - 1"
    using True by (simp_all add: range_min_def range_max_def h_def)
  ultimately show ?thesis by simp
qed

lemma to_value_small:
  assumes "0 \<le> v" and "v < 2 ^ k" and "k < bits T"
  shows "to_value T v = v"
proof -
  define h :: int where "h = 2 ^ (bits T - 1)"
  have "(2::int) ^ k \<le> h" unfolding h_def using assms(3) by (intro power_increasing) auto
  moreover have "h \<le> 2 ^ bits T" unfolding h_def by (intro power_increasing) auto
  moreover have "range_min T = (if is_signed T then - h else 0)"
    "range_max T = (if is_signed T then h - 1 else 2 ^ bits T - 1)"
    by (simp_all add: range_min_def range_max_def h_def)
  ultimately have "range_min T \<le> v \<and> v \<le> range_max T"
    using assms(1,2) by auto
  with assms(3) show ?thesis by (simp add: to_value_eq_iff)
qed

lemma to_value_in_range:
  assumes "0 \<le> v" and "v \<le> range_max T" and "0 < range_max T"
  shows "to_value T v = v"
proof -
  have b: "0 < bits T"
    using assms(3) by (cases "bits T") (auto simp: range_max_def split: if_splits)
  have "range_min T \<le> 0" by (simp add: range_min_def)
  with assms(1,2) show ?thesis by (simp add: to_value_eq_iff [OF b])
qed

lemma int_to_native_number_range:
  assumes "0 < bits (NativeNumber m)"
  shows "int_to_native_number m v =
     (if range_min (NativeNumber m) \<le> v \<and> v \<le> range_max (NativeNumber m) then Inr v
      else if int_max_str_digits < length (str_nat (nat \<bar>v\<bar>)) then Inl ValueError
      else Inl (out_of_range v))"
  using to_value_eq_iff [OF assms, of v]
  by (auto simp: int_to_native_number_def out_of_range_def format_int_def)

lemma int_to_address_range:
  assumes "0 < bits (Address m)"
  shows "int_to_address m v =
     (if range_min (Address m) \<le> v \<and> v \<le> range_max (Address m) then Inr v
      else if int_max_str_digits < length (str_nat (nat \<bar>v\<bar>)) then Inl ValueError
      else Inl (out_of_range v))"
  using to_value_eq_iff [OF assms, of v]
  by (auto simp: int_to_address_def out_of_range_def format_int_def)

lemma str_nat_digit: "n < 10 \<Longrightarrow> str_nat n = [digits ! n]"
  by (simp add: str_nat.simps)

lemma hex_digit_facts:
  assumes "c \<in> set hex_digits"
  shows "digit_value c = Some (digit_of_char c) \<and> digit_of_char c < 16 \<and> c \<noteq> CHR ''_'' \<and>
     c \<noteq> CHR ''-'' \<and> c \<noteq> CHR ''+'' \<and> \<not> py_isspace c"
proof -
  from assms have "c = CHR ''0'' \<or> c = CHR ''1'' \<or> c = CHR ''2'' \<or> c = CHR ''3'' \<or> c = CHR ''4''
      \<or> c = CHR ''5'' \<or> c = CHR ''6'' \<or> c = CHR ''7'' \<or> c = CHR ''8'' \<or> c = CHR ''9''
      \<or> c = CHR ''a'' \<or> c = CHR ''b'' \<or> c = CHR ''c'' \<or> c = CHR ''d'' \<or> c = CHR ''e''
      \<or> c = CHR ''f'' \<or> c = CHR ''A'' \<or> c = CHR ''B'' \<or> c = CHR ''C'' \<or> c = CHR ''D''
      \<or> c = CHR ''E'' \<or> c = CHR ''F''"
    by (simp add: hex_digits_def)
  then show ?thesis
    by (elim disjE) (simp_all add: digit_value_def digit_of_char_def py_isspace_def)
qed

lemma digit_facts:
  assumes "c \<in> set digits"
  shows "digit_value c = Some (digit_of_char c) \<and> digit_of_char c < 10 \<and> c \<noteq> CHR ''_'' \<and>
     c \<noteq> CHR ''-'' \<and> c \<noteq> CHR ''+'' \<and> \<not> py_isspace c \<and> c \<noteq> CHR ''x''"
proof -
  from assms have "c = CHR ''0'' \<or> c = CHR ''1'' \<or> c = CHR ''2'' \<or> c = CHR ''3'' \<or> c = CHR ''4''
      \<or> c = CHR ''5'' \<or> c = CHR ''6'' \<or> c = CHR ''7'' \<or> c = CHR ''8'' \<or> c = CHR ''9''"
    by (simp add: digits_def)
  then show ?thesis
    by (elim disjE) (simp_all add: digit_value_def digit_of_char_def py_isspace_def)
qed

lemma scan_digits_clean:
  assumes "\<forall>c\<in>set ds. c \<noteq> CHR ''_'' \<and> digit_value c = Some (digit_of_char c) \<and> digit_of_char c < base"
  shows "scan_digits base False acc ds =
           Some (foldl (\<lambda>acc c. acc * base + digit_of_char c) acc ds, [])"
  using assms by (induction ds arbitrary: acc) auto

lemma digit_count_digits: "set ds \<subseteq> set digits \<Longrightarrow> digit_count ds = length ds"
  unfolding digit_count_def by (induction ds) (simp_all add: digit_facts)

lemma py_int_decimal:
  assumes sg: "is_sign sg" and ne: "ds \<noteq> []" and ds: "set ds \<subseteq> set digits"
  shows "py_int 10 (sg @ ds) =
     (if int_max_str_digits < length ds then None
      else Some (signed_value sg (positional_value 10 ds)))"
proof -
  from ne obtain d ds' where dds: "ds = d # ds'" by (cases ds) auto
  with ds have d: "d \<in> set digits" by simp
  note df = digit_facts [OF d]
  have "\<forall>c\<in>set ds. c \<noteq> CHR ''_'' \<and> digit_value c = Some (digit_of_char c) \<and> digit_of_char c < 10"
    using ds digit_facts by blast
  then have scan: "scan_digits 10 False 0 ds = Some (positional_value 10 ds, [])"
    unfolding positional_value_def by (rule scan_digits_clean)
  have count: "digit_count (d # ds') = length ds"
    using digit_count_digits [OF ds] by (simp add: dds)
  have base: "\<not> binary_base 10"
    by (simp add: binary_base_def)
  from sg consider "sg = []" | "sg = ''+''" | "sg = ''-''" by (auto simp: is_sign_def)
  then show ?thesis
  proof cases
    case 1
    with df scan [unfolded dds] count base show ?thesis
      by (simp add: py_int_def dds signed_value_def)
  next
    case 2
    with df scan [unfolded dds] count base show ?thesis
      by (simp add: py_int_def dds signed_value_def py_isspace_def)
  next
    case 3
    with df scan [unfolded dds] count base show ?thesis
      by (simp add: py_int_def dds signed_value_def py_isspace_def)
  qed
qed

lemma py_int_hexadecimal:
  assumes sg: "is_sign sg" and ne: "hs \<noteq> []" and hs: "set hs \<subseteq> set hex_digits"
  shows "py_int 16 (sg @ ''0x'' @ hs) = Some (signed_value sg (positional_value 16 hs))"
proof -
  from ne obtain d ds' where dds: "hs = d # ds'" by (cases hs) auto
  with hs have d: "d \<in> set hex_digits" by simp
  note df = hex_digit_facts [OF d]
  have "\<forall>c\<in>set hs. c \<noteq> CHR ''_'' \<and> digit_value c = Some (digit_of_char c) \<and> digit_of_char c < 16"
    using hs hex_digit_facts by blast
  then have scan: "scan_digits 16 False 0 hs = Some (positional_value 16 hs, [])"
    unfolding positional_value_def by (rule scan_digits_clean)
  from sg consider "sg = []" | "sg = ''+''" | "sg = ''-''" by (auto simp: is_sign_def)
  then show ?thesis
  proof cases
    case 1
    with df scan [unfolded dds] show ?thesis
      by (simp add: py_int_def dds signed_value_def py_isspace_def binary_base_def)
  next
    case 2
    with df scan [unfolded dds] show ?thesis
      by (simp add: py_int_def dds signed_value_def py_isspace_def binary_base_def)
  next
    case 3
    with df scan [unfolded dds] show ?thesis
      by (simp add: py_int_def dds signed_value_def py_isspace_def binary_base_def)
  qed
qed

lemma hex_literal_matches:
  assumes sg: "is_sign sg" and ne: "hs \<noteq> []" and hs: "set hs \<subseteq> set hex_digits"
  shows "re_match HEX_NUMBER_PATTERN (sg @ ''0x'' @ hs) \<noteq> None"
proof -
  from ne obtain d ds' where dds: "hs = d # ds'" by (cases hs) auto
  with hs have d: "d \<in> set hex_digits" by simp
  from sg consider "sg = []" | "sg = ''+''" | "sg = ''-''" by (auto simp: is_sign_def)
  then show ?thesis
    using d by cases (simp_all add: re_match_None_iff number_defs dds)
qed

lemma dec_literal_matches:
  assumes sg: "is_sign sg" and ne: "ds \<noteq> []" and ds: "set ds \<subseteq> set digits"
  shows "re_match NUMBER_PATTERN (sg @ ds) \<noteq> None"
proof -
  from ne obtain d ds' where dds: "ds = d # ds'" by (cases ds) auto
  with ds have d: "d \<in> set digits" by simp
  note df = digit_facts [OF d]
  from sg consider "sg = []" | "sg = ''+''" | "sg = ''-''" by (auto simp: is_sign_def)
  then show ?thesis
    using d df by cases (simp_all add: re_match_None_iff number_defs dds)
qed

lemma dec_literal_not_hex:
  assumes sg: "is_sign sg" and ne: "ds \<noteq> []" and ds: "set ds \<subseteq> set digits"
  shows "re_match HEX_NUMBER_PATTERN (sg @ ds) = None"
proof -
  from ne obtain d ds' where dds: "ds = d # ds'" by (cases ds) auto
  with ds have d: "d \<in> set digits" by simp
  note df = digit_facts [OF d]
  have x: "ds' = [] \<or> (\<exists>e es. ds' = e # es \<and> e \<noteq> CHR ''x'')"
    using ds dds digit_facts by (cases ds') auto
  from sg consider "sg = []" | "sg = ''+''" | "sg = ''-''" by (auto simp: is_sign_def)
  then show ?thesis
    using d df x by cases (auto simp add: re_match_None_iff number_defs dds)
qed

lemma parse_decimal:
  assumes "is_sign sg" and "ds \<noteq> []" and "set ds \<subseteq> set digits"
  shows "parse_number m (sg @ ds) =
       (if int_max_str_digits < length ds then Inl ValueError
        else int_to_native_number m (signed_value sg (positional_value 10 ds)))"
    and "parse_address_literal m (sg @ ds) =
       (if int_max_str_digits < length ds then Inl ValueError
        else int_to_address m (signed_value sg (positional_value 10 ds)))"
  using dec_literal_not_hex [OF assms] dec_literal_matches [OF assms] py_int_decimal [OF assms]
  by (simp_all add: parse_number_def parse_address_literal_def)

lemma positional_value_bound:
  assumes "set ds \<subseteq> set digits"
  shows "foldl (\<lambda>acc c. acc * 10 + digit_of_char c) a ds < (a + 1) * 10 ^ length ds"
  using assms
proof (induction ds arbitrary: a)
  case Nil
  show ?case by simp
next
  case (Cons c ds)
  let ?b = "a * 10 + digit_of_char c"
  from Cons.prems have "digit_of_char c < 10" using digit_facts [of c] by simp
  then have "?b + 1 \<le> (a + 1) * 10" by simp
  then have "(?b + 1) * 10 ^ length ds \<le> ((a + 1) * 10) * 10 ^ length ds"
    by (rule mult_right_mono) simp
  moreover have "foldl (\<lambda>acc c. acc * 10 + digit_of_char c) ?b ds < (?b + 1) * 10 ^ length ds"
    using Cons by simp
  ultimately have "foldl (\<lambda>acc c. acc * 10 + digit_of_char c) ?b ds
      < ((a + 1) * 10) * 10 ^ length ds"
    by (rule less_le_trans [rotated])
  moreover have "((a + 1) * 10) * 10 ^ length ds = (a + 1) * 10 ^ length (c # ds)"
    by (simp add: algebra_simps)
  ultimately show ?case by (simp only: foldl_Cons)
qed

lemma length_str_nat: "n < 10 ^ k \<Longrightarrow> 0 < k \<Longrightarrow> length (str_nat n) \<le> k"
proof (induction n arbitrary: k rule: str_nat.induct)
  case (1 n)
  show ?case
  proof (cases "n < 10")
    case True
    with "1.prems" show ?thesis by (simp add: str_nat.simps [of n])
  next
    case False
    with "1.prems" obtain j where k: "k = Suc j" and j: "0 < j"
      by (cases k; cases "k - 1") auto
    from "1.prems"(1) k have "n div 10 < 10 ^ j"
      by (simp add: less_mult_imp_div_less mult.commute)
    from "1.IH" [OF False this j] False k show ?thesis
      by (simp add: str_nat.simps [of n])
  qed
qed

lemma decimal_literal_formats:
  assumes "ds \<noteq> []" and "set ds \<subseteq> set digits" and "length ds \<le> int_max_str_digits"
  shows "\<not> int_max_str_digits < length (str_nat (nat \<bar>signed_value sg (positional_value 10 ds)\<bar>))"
proof -
  have "positional_value 10 ds < 10 ^ length ds"
    using positional_value_bound [OF assms(2), of 0] by (simp add: positional_value_def)
  moreover have "0 < length ds" using assms(1) by simp
  ultimately have "length (str_nat (positional_value 10 ds)) \<le> length ds"
    by (rule length_str_nat)
  moreover have "nat \<bar>signed_value sg (positional_value 10 ds)\<bar> = positional_value 10 ds"
    by (simp add: signed_value_def)
  ultimately show ?thesis using assms(3) by simp
qed

lemma parse_hexadecimal:
  assumes "is_sign sg" and "hs \<noteq> []" and "set hs \<subseteq> set hex_digits"
  shows "parse_number m (sg @ ''0x'' @ hs) = int_to_native_number m (signed_value sg (positional_value 16 hs))"
    and "parse_address_literal m (sg @ ''0x'' @ hs) = int_to_address m (signed_value sg (positional_value 16 hs))"
  using hex_literal_matches [OF assms] py_int_hexadecimal [OF assms]
  by (simp_all add: parse_number_def parse_address_literal_def)

lemma positional_value_zeros:
  "foldl (\<lambda>acc c. acc * 10 + digit_of_char c) a (replicate n (CHR ''0'')) = a * 10 ^ n"
  by (induction n arbitrary: a) (simp_all add: digit_of_char_def)

lemma long_decimal_literal_facts:
  "set (replicate n (CHR ''0'') @ ''5'') \<subseteq> set digits"
  "length (replicate n (CHR ''0'') @ ''5'') = Suc n"
  "positional_value 10 (replicate n (CHR ''0'') @ ''5'') = 5"
proof -
  have "digit_of_char (CHR ''5'') = 5"
    by (simp add: digit_of_char_def)
  then show "positional_value 10 (replicate n (CHR ''0'') @ ''5'') = 5"
    by (simp add: positional_value_def positional_value_zeros)
qed (auto simp: digits_def)

lemma long_decimal_literal:
  assumes "int_max_str_digits < n"
  shows "positional_value 10 (replicate n (CHR ''0'') @ ''5'') = 5"
    and "parse_number m (replicate n (CHR ''0'') @ ''5'') = Inl ValueError"
    and "parse_address_literal m (replicate n (CHR ''0'') @ ''5'') = Inl ValueError"
proof -
  let ?ds = "replicate n (CHR ''0'') @ ''5''"
  have "digit_of_char (CHR ''5'') = 5"
    by (simp add: digit_of_char_def)
  then show "positional_value 10 ?ds = 5"
    by (simp add: positional_value_def positional_value_zeros)
  have d: "set ?ds \<subseteq> set digits"
    by (auto simp: digits_def)
  have l: "int_max_str_digits < length ?ds"
    using assms by simp
  have s: "is_sign []" "?ds \<noteq> []"
    by (simp_all add: is_sign_def)
  from parse_decimal [OF s d, of m] l
  show "parse_number m ?ds = Inl ValueError" "parse_address_literal m ?ds = Inl ValueError"
    by simp_all
qed

section \<open>The structure of parsing and compiling\<close>

lemma map_result_Inl: "map_result f xs = Inl e \<Longrightarrow> \<exists>x\<in>set xs. f x = Inl e"
  by (induction xs) (auto split: sum.splits)

lemma map_result_Inr: "(\<And>x. x \<in> set xs \<Longrightarrow> f x = Inr (g x)) \<Longrightarrow> map_result f xs = Inr (map g xs)"
  by (induction xs) auto

lemma resolve_Inl: "resolve tbl b = Inl e \<Longrightarrow> \<exists>l. b = Lab l \<and> tbl l = None \<and> e = KeyError l"
  by (cases b) (auto split: option.splits)

lemma resolve_Inr: "(\<And>l. b \<noteq> Lab l) \<Longrightarrow> resolve tbl b = Inr b"
  by (cases b) auto

lemma produce_bytes_padded_ok: "padded_ok ln \<Longrightarrow> produce_bytes_padded ln = Inr (padded_bytes ln)"
  by (simp add: produce_bytes_padded_def padded_ok_def padded_bytes_def Let_def)

lemma encode_line_Inl:
  assumes "padded_ok ln" and "encode_line tbl ln = Inl e"
  shows "\<exists>l. Lab l \<in> set (produced_bytes ln) \<and> tbl l = None \<and> e = KeyError l"
proof -
  from assms have "map_result (resolve tbl) (padded_bytes ln) = Inl e"
    by (simp add: encode_line_def produce_bytes_padded_ok)
  then obtain b where b: "b \<in> set (padded_bytes ln)" "resolve tbl b = Inl e"
    by (blast dest: map_result_Inl)
  from b(2) obtain l where l: "b = Lab l" "tbl l = None" "e = KeyError l"
    by (blast dest: resolve_Inl)
  from b(1) l(1) have "Lab l \<in> set (produced_bytes ln)"
    by (auto simp: padded_bytes_def)
  with l show ?thesis by blast
qed

lemma compile_parsed_Inl:
  assumes "\<forall>ln\<in>set parsed. padded_ok ln" and "compile_parsed parsed = Inl e"
  shows "\<exists>ln\<in>set parsed. \<exists>l. Lab l \<in> set (produced_bytes ln) \<and> labels_of parsed l = None \<and> e = KeyError l"
proof -
  from assms(2) have "map_result (encode_line (labels_of parsed)) parsed = Inl e"
    by (simp add: compile_parsed_def split: sum.splits)
  then obtain ln where "ln \<in> set parsed" "encode_line (labels_of parsed) ln = Inl e"
    by (blast dest: map_result_Inl)
  with assms(1) show ?thesis by (blast dest: encode_line_Inl)
qed

lemma compile_parsed_no_labels:
  assumes ok: "\<forall>ln\<in>set parsed. padded_ok ln"
    and no: "\<forall>ln\<in>set parsed. \<forall>l. Lab l \<notin> set (produced_bytes ln)"
  shows "compile_parsed parsed = Inr (concat (map padded_bytes parsed))"
proof -
  have "encode_line tbl ln = Inr (padded_bytes ln)" if "ln \<in> set parsed" for ln tbl
  proof -
    have "b \<noteq> Lab l" if "b \<in> set (padded_bytes ln)" for b l
      using that no \<open>ln \<in> set parsed\<close> by (auto simp: padded_bytes_def)
    then have "map_result (resolve tbl) (padded_bytes ln) = Inr (map (\<lambda>b. b) (padded_bytes ln))"
      by (intro map_result_Inr resolve_Inr) blast
    with ok that show ?thesis by (simp add: encode_line_def produce_bytes_padded_ok)
  qed
  then have "map_result (encode_line (labels_of parsed)) parsed = Inr (map padded_bytes parsed)"
    by (intro map_result_Inr) blast
  then show ?thesis by (simp add: compile_parsed_def)
qed

lemma foldl_add_label:
  "foldl add_label tbl parsed l =
     (if declarations l parsed = [] then tbl l else Some (last (declarations l parsed)))"
proof (induction parsed arbitrary: tbl)
  case Nil
  show ?case by (simp add: declarations_def)
next
  case (Cons ln parsed)
  show ?case
    by (cases ln) (auto simp: Cons.IH declarations_def)
qed

lemma construct_padded_ok: "construct m c a gs = Inr l \<Longrightarrow> padded_ok l"
  by (cases c)
    (auto simp: padded_ok_def OffsetLine_init_def LabelLine_init_def ValueLine_init_def
      InstructionLine_init_def Let_def split: sum.splits option.splits if_splits)

lemma parse_line_padded_ok: "parse_line m a s = Inr l \<Longrightarrow> padded_ok l"
  by (auto simp: parse_line_def split: option.splits dest: construct_padded_ok)

lemma parse_from_padded_ok: "parse_from m n a lns = Inr ls \<Longrightarrow> \<forall>l\<in>set ls. padded_ok l"
  by (induction lns arbitrary: n a ls) (auto split: sum.splits dest: parse_line_padded_ok)

lemma parse_padded_ok: "parse m src = Inr ls \<Longrightarrow> \<forall>l\<in>set ls. padded_ok l"
  unfolding parse_def parse_lines_def by (rule parse_from_padded_ok)

lemma parse_from_append:
  "parse_from m n a (xs @ ys) =
     (case parse_from m n a xs of
        Inl e \<Rightarrow> Inl e
      | Inr ls \<Rightarrow>
          (case parse_from m (n + length xs) (a + sum_list (map produced_bytes_padded_num ls)) ys of
             Inl e \<Rightarrow> Inl e
           | Inr ls' \<Rightarrow> Inr (ls @ ls')))"
proof (induction xs arbitrary: n a)
  case Nil
  show ?case by (simp split: sum.splits)
next
  case (Cons x xs)
  show ?case
    by (simp add: Cons.IH add.assoc split: sum.splits)
qed

lemma construct_address: "construct m c a gs = Inr l \<Longrightarrow> address l = a"
  by (cases c)
    (auto simp: OffsetLine_init_def LabelLine_init_def ValueLine_init_def
      InstructionLine_init_def Let_def split: sum.splits option.splits if_splits)

lemma parse_line_address: "parse_line m a s = Inr l \<Longrightarrow> address l = to_value (Address m) a"
  by (auto simp: parse_line_def split: option.splits dest: construct_address)

lemma parse_from_address:
  "parse_from m n a lns = Inr ls \<Longrightarrow> i < length ls \<Longrightarrow>
     address (ls ! i) = to_value (Address m) (a + sum_list (map produced_bytes_padded_num (take i ls)))"
proof (induction lns arbitrary: n a ls i)
  case Nil
  then show ?case by simp
next
  case (Cons x xs)
  from Cons.prems(1) obtain l ls' where l: "parse_line m a x = Inr l"
    and ls': "parse_from m (n + 1) (a + produced_bytes_padded_num l) xs = Inr ls'"
    and ls: "ls = l # ls'"
    by (auto split: sum.splits)
  show ?case
  proof (cases i)
    case 0
    with l ls show ?thesis by (simp add: parse_line_address)
  next
    case (Suc j)
    with Cons.prems(2) ls have "j < length ls'" by simp
    from Cons.IH [OF ls' this] Suc ls show ?thesis by (simp add: add.assoc)
  qed
qed

lemma first_match_order:
  "first_match m ln =
     (if re_match (Pattern m EmptyLineC) ln \<noteq> None then Some (EmptyLineC, re_match (Pattern m EmptyLineC) ln)
      else if re_match (Pattern m OffsetLineC) ln \<noteq> None then Some (OffsetLineC, re_match (Pattern m OffsetLineC) ln)
      else if re_match (Pattern m ValueLineC) ln \<noteq> None then Some (ValueLineC, re_match (Pattern m ValueLineC) ln)
      else if re_match (Pattern m InstructionLineC) ln \<noteq> None then Some (InstructionLineC, re_match (Pattern m InstructionLineC) ln)
      else if re_match (Pattern m LabelLineC) ln \<noteq> None then Some (LabelLineC, re_match (Pattern m LabelLineC) ln)
      else None)"
  unfolding first_match_def classes_def by simp

lemma parse_lines_invalid_syntax:
  assumes "parse_lines m pre = Inr ls" and "first_match m ln = None"
  shows "parse_lines m (pre @ ln # post) =
           Inl (CompilationError (''Line '' @ str_nat (length pre + 1) @ '': Invalid syntax''))"
  using assms by (simp add: parse_lines_def parse_from_append parse_line_def)

section \<open>The pattern of an instruction line, for any catalog\<close>

lemma run_Seq_set: "set (run (Seq a b) st) = (\<Union>mid\<in>set (run a st). set (run b mid))"
  by simp

lemma run_Lit:
  "run (Lit n) (p, s, g) = (if take (length n) s = n then [(p @ n, drop (length n) s, g)] else [])"
proof (induction n arbitrary: p s)
  case Nil
  show ?case by simp
next
  case (Cons c n)
  show ?case by (cases s) (auto simp: Cons.IH)
qed

lemma run_alternatives_Lit:
  "ns \<noteq> [] \<Longrightarrow> set (run (alternatives (map Lit ns)) (p, s, g)) =
     {(p @ n, drop (length n) s, g) | n. n \<in> set ns \<and> take (length n) s = n}"
proof (induction ns)
  case Nil
  then show ?case by simp
next
  case (Cons n ns)
  show ?case
  proof (cases ns)
    case Nil
    then show ?thesis by (auto simp: run_Lit)
  next
    case (Cons n' ns')
    with Cons.IH have "set (run (alternatives (map Lit ns)) (p, s, g)) =
        {(p @ n, drop (length n) s, g) | n. n \<in> set ns \<and> take (length n) s = n}"
      by simp
    moreover have "alternatives (map Lit (n # ns)) = Alt (Lit n) (alternatives (map Lit ns))"
      using Cons by simp
    ultimately show ?thesis by (auto simp: run_Lit)
  qed
qed

lemma run_instruction_names:
  assumes "Instructions m \<noteq> []"
  shows "set (run (Group (INSTRUCTION_NAME_PATTERN (Instructions m))) (p, s, g)) =
     {(p @ n, drop (length n) s, g @ [n]) | n. n \<in> fst ` set (Instructions m) \<and> take (length n) s = n}"
proof -
  let ?f = "\<lambda>(p', s', g'). (p', s', g' @ [drop (length p) p'])"
  have names: "INSTRUCTION_NAME_PATTERN (Instructions m) =
      alternatives (map Lit (map fst (Instructions m)))"
    by (simp add: INSTRUCTION_NAME_PATTERN_def comp_def)
  have ne: "map fst (Instructions m) \<noteq> []" using assms by simp
  have "set (run (Group (INSTRUCTION_NAME_PATTERN (Instructions m))) (p, s, g)) =
      ?f ` set (run (alternatives (map Lit (map fst (Instructions m)))) (p, s, g))"
    unfolding names by (simp only: run.simps set_map)
  also have "\<dots> = ?f ` {(p @ n, drop (length n) s, g) | n.
      n \<in> set (map fst (Instructions m)) \<and> take (length n) s = n}"
    by (simp only: run_alternatives_Lit [OF ne])
  also have "\<dots> = {(p @ n, drop (length n) s, g @ [n]) | n.
      n \<in> fst ` set (Instructions m) \<and> take (length n) s = n}"
    by (auto simp: image_iff) force
  finally show ?thesis .
qed

lemma identifier_prefix:
  assumes "is_identifier n" and "take (length n) (w @ c # r) = n" and "c \<notin> set (letters @ ''_'' @ digits)"
  shows "n \<noteq> [] \<and> length n \<le> length w \<and> n = take (length n) w"
proof -
  have le: "length n \<le> length w"
  proof (rule ccontr)
    assume "\<not> length n \<le> length w"
    then have lt: "length w < length n" by simp
    then have "n ! length w = take (length n) (w @ c # r) ! length w"
      using assms(2) by simp
    also have "\<dots> = (w @ c # r) ! length w" using lt by (simp only: nth_take)
    also have "\<dots> = c" by simp
    finally have "c \<in> set n" using lt by (metis nth_mem)
    with assms(1,3) show False by (auto simp: is_identifier_def)
  qed
  with assms(2) have "n = take (length n) w" by auto
  with le assms(1) show ?thesis by (simp add: is_identifier_def)
qed

lemma instruction_pattern_runs:
  assumes "Instructions m \<noteq> []"
  shows "set (run (Pattern m InstructionLineC) ([], s, [])) =
     (\<Union>(p, r, g)\<in>set (run INDENTATION_PATTERN ([], s, [])).
        \<Union>n\<in>{n \<in> fst ` set (Instructions m). take (length n) r = n}.
          set (run ARGUMENTS_PATTERN (p @ n, drop (length n) r, g @ [n])))"
proof -
  let ?names = "Group (INSTRUCTION_NAME_PATTERN (Instructions m))"
  have step: "set (run (Seq ?names ARGUMENTS_PATTERN) (p, r, g)) =
      (\<Union>n\<in>{n \<in> fst ` set (Instructions m). take (length n) r = n}.
          set (run ARGUMENTS_PATTERN (p @ n, drop (length n) r, g @ [n])))" for p r g
    unfolding run_Seq_set run_instruction_names [OF assms] by blast
  have "set (run (Pattern m InstructionLineC) ([], s, [])) =
      (\<Union>st\<in>set (run INDENTATION_PATTERN ([], s, [])). set (run (Seq ?names ARGUMENTS_PATTERN) st))"
    by (simp only: Pattern.simps ARGUMENTS_PATTERN_def [symmetric] run_Seq_set)
  also have "\<dots> = (\<Union>(p, r, g)\<in>set (run INDENTATION_PATTERN ([], s, [])).
        \<Union>n\<in>{n \<in> fst ` set (Instructions m). take (length n) r = n}.
          set (run ARGUMENTS_PATTERN (p @ n, drop (length n) r, g @ [n])))"
  proof (intro SUP_cong refl)
    fix st :: mstate
    obtain p r g where st: "st = (p, r, g)" by (cases st)
    show "set (run (Seq ?names ARGUMENTS_PATTERN) st) =
        (case st of (p, r, g) \<Rightarrow>
          \<Union>n\<in>{n \<in> fst ` set (Instructions m). take (length n) r = n}.
            set (run ARGUMENTS_PATTERN (p @ n, drop (length n) r, g @ [n])))"
      unfolding st by (simp only: step prod.case)
  qed
  finally show ?thesis .
qed

lemma no_name_at:
  assumes "\<forall>n\<in>fst ` set (Instructions m). is_identifier n" and "c \<notin> set (letters @ ''_'' @ digits)"
  shows "{n \<in> fst ` set (Instructions m). take (length n) (c # r) = n} = {}"
  using assms identifier_prefix [of _ "[]" c r] by fastforce

lemma names_at_word3:
  assumes "\<forall>n\<in>fst ` set (Instructions m). is_identifier n" and "c \<notin> set (letters @ ''_'' @ digits)"
  shows "{n \<in> fst ` set (Instructions m). take (length n) (x # y # z # c # r) = n} =
     {n \<in> fst ` set (Instructions m). n = [x] \<or> n = [x, y] \<or> n = [x, y, z]}"
proof -
  have "n = [x] \<or> n = [x, y] \<or> n = [x, y, z]"
    if "is_identifier n" and "take (length n) (x # y # z # c # r) = n" for n
  proof -
    from identifier_prefix [of n "[x, y, z]" c r] that assms(2)
    have n: "n \<noteq> []" "length n \<le> 3" "n = take (length n) [x, y, z]" by simp_all
    from n(1,2) consider "length n = 1" | "length n = 2" | "length n = 3"
      by (cases n) (auto simp: le_Suc_eq eval_nat_numeral)
    then show ?thesis
      by cases (use n(3) in \<open>simp_all add: eval_nat_numeral\<close>)
  qed
  with assms(1) show ?thesis by auto
qed

lemma re_match_unique: "set (run r ([], s, [])) = {(p, s', g)} \<Longrightarrow> re_match r s = Some g"
  by (cases "run r ([], s, [])") (auto simp: re_match_def)

lemma not_identifier_character:
  "CHR '' '' \<notin> set (letters @ ''_'' @ digits)" "CHR '':'' \<notin> set (letters @ ''_'' @ digits)"
  by (simp_all add: letters_def digits_def)

lemma UN_empty_if: "(\<And>x. x \<in> A \<Longrightarrow> B x = {}) \<Longrightarrow> (\<Union>x\<in>A. B x) = {}"
  by blast

lemma UN_single_if:
  "a \<in> A \<Longrightarrow> (\<And>x. x \<in> A \<Longrightarrow> B x = (if x = a then {y} else {})) \<Longrightarrow> (\<Union>x\<in>A. B x) = {y}"
  by (auto split: if_splits)

lemma instruction_line_label_declaration:
  assumes ids: "\<forall>n\<in>fst ` set (Instructions m). is_identifier n" and ne: "Instructions m \<noteq> []"
  shows "re_match (Pattern m InstructionLineC) ''foo:'' = None"
proof -
  let ?N = "fst ` set (Instructions m)"
  let ?F = "\<lambda>p r n. set (run ARGUMENTS_PATTERN (p @ n, drop (length n) r, [] @ [n]))"
  have ind: "run INDENTATION_PATTERN ([], ''foo:'', []) = [([], ''foo:'', [])]"
    by code_simp
  have a: "run ARGUMENTS_PATTERN (''f'', ''oo:'', [''f'']) = []"
    "run ARGUMENTS_PATTERN (''fo'', ''o:'', [''fo'']) = []"
    "run ARGUMENTS_PATTERN (''foo'', '':'', [''foo'']) = []"
    by code_simp+
  have "set (run (Pattern m InstructionLineC) ([], ''foo:'', [])) =
      (\<Union>n\<in>{n \<in> ?N. take (length n) ''foo:'' = n}. ?F [] ''foo:'' n)"
    unfolding instruction_pattern_runs [OF ne] ind
    by (simp only: list.set UN_insert UN_empty prod.case Un_empty_right)
  also have "\<dots> = (\<Union>n\<in>{n \<in> ?N. n = ''f'' \<or> n = ''fo'' \<or> n = ''foo''}. ?F [] ''foo:'' n)"
    by (simp only: names_at_word3 [OF ids not_identifier_character(2)])
  also have "\<dots> = {}"
  proof (rule UN_empty_if)
    fix n assume "n \<in> {n \<in> ?N. n = ''f'' \<or> n = ''fo'' \<or> n = ''foo''}"
    then have "n = ''f'' \<or> n = ''fo'' \<or> n = ''foo''" by simp
    then show "?F [] ''foo:'' n = {}"
      using a by (elim disjE) simp_all
  qed
  finally have "run (Pattern m InstructionLineC) ([], ''foo:'', []) = []"
    by (simp only: set_empty)
  then show ?thesis by (simp only: re_match_None_iff)
qed

lemma instruction_line_bare_identifier:
  assumes ids: "\<forall>n\<in>fst ` set (Instructions m). is_identifier n"
    and add: "''ADD'' \<in> fst ` set (Instructions m)"
  shows "re_match (Pattern m InstructionLineC) ''  ADD foo 0'' = None"
proof -
  let ?N = "fst ` set (Instructions m)"
  let ?F = "\<lambda>p r n. set (run ARGUMENTS_PATTERN (p @ n, drop (length n) r, [] @ [n]))"
  from add have ne: "Instructions m \<noteq> []" by auto
  have ind: "run INDENTATION_PATTERN ([], ''  ADD foo 0'', []) =
      [(''  '', ''ADD foo 0'', []), ('' '', '' ADD foo 0'', []), ([], ''  ADD foo 0'', [])]"
    by code_simp
  have a: "run ARGUMENTS_PATTERN (''  A'', ''DD foo 0'', [''A'']) = []"
    "run ARGUMENTS_PATTERN (''  AD'', ''D foo 0'', [''AD'']) = []"
    "run ARGUMENTS_PATTERN (''  ADD'', '' foo 0'', [''ADD'']) = []"
    by code_simp+
  note sp = not_identifier_character(1)
  have "set (run (Pattern m InstructionLineC) ([], ''  ADD foo 0'', [])) =
      (\<Union>n\<in>{n \<in> ?N. n = ''A'' \<or> n = ''AD'' \<or> n = ''ADD''}. ?F ''  '' ''ADD foo 0'' n)"
    unfolding instruction_pattern_runs [OF ne] ind
    by (simp only: list.set UN_insert UN_empty prod.case Un_empty_right
        no_name_at [OF ids sp] names_at_word3 [OF ids sp])
  also have "\<dots> = {}"
  proof (rule UN_empty_if)
    fix n assume "n \<in> {n \<in> ?N. n = ''A'' \<or> n = ''AD'' \<or> n = ''ADD''}"
    then have "n = ''A'' \<or> n = ''AD'' \<or> n = ''ADD''" by simp
    then show "?F ''  '' ''ADD foo 0'' n = {}"
      using a by (elim disjE) simp_all
  qed
  finally have "run (Pattern m InstructionLineC) ([], ''  ADD foo 0'', []) = []"
    by (simp only: set_empty)
  then show ?thesis by (simp only: re_match_None_iff)
qed

lemma instruction_line_label_reference:
  assumes ids: "\<forall>n\<in>fst ` set (Instructions m). is_identifier n"
    and add: "''ADD'' \<in> fst ` set (Instructions m)"
  shows "re_match (Pattern m InstructionLineC) ''  ADD foo: 0'' = Some [''ADD'', '' foo: 0'']"
proof -
  let ?N = "fst ` set (Instructions m)"
  let ?F = "\<lambda>p r n. set (run ARGUMENTS_PATTERN (p @ n, drop (length n) r, [] @ [n]))"
  from add have ne: "Instructions m \<noteq> []" by auto
  have ind: "run INDENTATION_PATTERN ([], ''  ADD foo: 0'', []) =
      [(''  '', ''ADD foo: 0'', []), ('' '', '' ADD foo: 0'', []), ([], ''  ADD foo: 0'', [])]"
    by code_simp
  have a: "run ARGUMENTS_PATTERN (''  A'', ''DD foo: 0'', [''A'']) = []"
    "run ARGUMENTS_PATTERN (''  AD'', ''D foo: 0'', [''AD'']) = []"
    "run ARGUMENTS_PATTERN (''  ADD'', '' foo: 0'', [''ADD'']) = [(''  ADD foo: 0'', [], [''ADD'', '' foo: 0''])]"
    by code_simp+
  note sp = not_identifier_character(1)
  have "set (run (Pattern m InstructionLineC) ([], ''  ADD foo: 0'', [])) =
      (\<Union>n\<in>{n \<in> ?N. n = ''A'' \<or> n = ''AD'' \<or> n = ''ADD''}. ?F ''  '' ''ADD foo: 0'' n)"
    unfolding instruction_pattern_runs [OF ne] ind
    by (simp only: list.set UN_insert UN_empty prod.case Un_empty_right
        no_name_at [OF ids sp] names_at_word3 [OF ids sp])
  also have "\<dots> = {(''  ADD foo: 0'', [], [''ADD'', '' foo: 0''])}"
  proof (rule UN_single_if [where a = "''ADD''"])
    show "''ADD'' \<in> {n \<in> ?N. n = ''A'' \<or> n = ''AD'' \<or> n = ''ADD''}"
      using add by simp
  next
    fix n assume "n \<in> {n \<in> ?N. n = ''A'' \<or> n = ''AD'' \<or> n = ''ADD''}"
    then have "n = ''A'' \<or> n = ''AD'' \<or> n = ''ADD''" by simp
    then show "?F ''  '' ''ADD foo: 0'' n =
        (if n = ''ADD'' then {(''  ADD foo: 0'', [], [''ADD'', '' foo: 0''])} else {})"
      using a by (elim disjE) simp_all
  qed
  finally show ?thesis by (rule re_match_unique)
qed

lemma Pattern_catalog_free: "c \<noteq> InstructionLineC \<Longrightarrow> Pattern m c = Pattern example_vm c"
  by (cases c) simp_all

section \<open>What the compiler does with a parsed program\<close>

lemma references_Nil: "references ln = [] \<Longrightarrow> Lab l \<notin> set (produced_bytes ln)"
  by (force simp: references_def)

lemma compile_after_parse:
  assumes "parse m src = Inr parsed"
  shows "labels_of parsed l =
           (if declarations l parsed = [] then None else Some (last (declarations l parsed)))
       \<and> ((\<exists>bs. compile m src = Inr bs)
          \<or> (\<exists>ln\<in>set parsed. \<exists>k. Lab k \<in> set (produced_bytes ln) \<and> declarations k parsed = []
                \<and> compile m src = Inl (KeyError k)))"
proof
  show tbl: "labels_of parsed l =
      (if declarations l parsed = [] then None else Some (last (declarations l parsed)))" for l
    by (simp add: labels_of_def foldl_add_label)
  show "(\<exists>bs. compile m src = Inr bs)
      \<or> (\<exists>ln\<in>set parsed. \<exists>k. Lab k \<in> set (produced_bytes ln) \<and> declarations k parsed = []
            \<and> compile m src = Inl (KeyError k))"
  proof (cases "compile_parsed parsed")
    case (Inr bs)
    with assms show ?thesis by (simp add: compile_def)
  next
    case (Inl e)
    from parse_padded_ok [OF assms] Inl
    obtain ln k where "ln \<in> set parsed" "Lab k \<in> set (produced_bytes ln)"
      "labels_of parsed k = None" "e = KeyError k"
      by (blast dest: compile_parsed_Inl)
    moreover from this(3) have "declarations k parsed = []"
      by (simp add: tbl split: if_splits)
    ultimately show ?thesis using assms Inl by (auto simp: compile_def)
  qed
qed

section \<open>The claims of the specification\<close>

text \<open>
  Claim C1, as stated, fails. The text \<open>foo:\<close>, \<open>  ADD foo 0\<close> does not compile to
  the words ADD, 0, 0: with \<open>ADD\<close> in the catalog with two arguments, its second line
  matches no pattern, an argument of an instruction being a number or an identifier
  followed by a colon, and compilation stops with the syntax error of line 2.
\<close>

theorem bare_label_argument_rejected:
  "map_of (Instructions example_vm) ''ADD'' = Some 2
   \<and> compile example_vm ''foo:\<newline>  ADD foo 0\<newline>'' = Inl (CompilationError ''Line 2: Invalid syntax'')"
  by code_simp

text \<open>
  Claim C1, amended. On every machine whose catalog gives \<open>ADD\<close> two arguments and
  names its instructions by identifiers, the text \<open>foo:\<close>, \<open>  ADD foo: 0\<close>, where the
  label is referred to with its colon, compiles to the words ADD, address 0, address 0:
  \<open>foo:\<close> resolves to address 0. With the bare identifier \<open>foo\<close> as argument the
  text is rejected with the syntax error of line 2.
\<close>

theorem label_reference_with_colon:
  assumes add: "map_of (Instructions m) ''ADD'' = Some 2"
    and names: "list_all is_identifier (map fst (Instructions m))"
    and bits: "0 < bits (Address m)"
  shows "compile m ''foo:\<newline>  ADD foo: 0\<newline>'' = Inr [Op ''ADD'', Adr 0, Adr 0]
       \<and> compile m ''foo:\<newline>  ADD foo 0\<newline>'' = Inl (CompilationError ''Line 2: Invalid syntax'')"
proof -
  from names have ids: "\<forall>n\<in>fst ` set (Instructions m). is_identifier n"
    by (simp add: list_all_iff)
  from add have name: "''ADD'' \<in> fst ` set (Instructions m)"
    by (metis map_of_SomeD fst_conv image_eqI)
  then have ne: "Instructions m \<noteq> []" by auto
  have zero: "to_value (Address m) 0 = 0"
    using bits by (simp add: to_value_small [where k = 0])
  have first_line: "parse_line m 0 ''foo:'' = Inr (LabelLine 0 ''foo:'')"
  proof -
    have "re_match (Pattern example_vm EmptyLineC) ''foo:'' = None"
      "re_match (Pattern example_vm OffsetLineC) ''foo:'' = None"
      "re_match (Pattern example_vm ValueLineC) ''foo:'' = None"
      "re_match (Pattern example_vm LabelLineC) ''foo:'' = Some [''foo:'']"
      by code_simp+
    then have "first_match m ''foo:'' = Some (LabelLineC, Some [''foo:''])"
      using instruction_line_label_declaration [OF ids ne]
      by (simp add: first_match_order Pattern_catalog_free)
    moreover have "Label ''foo:'' = Inr ''foo:''"
      by code_simp
    ultimately show ?thesis
      by (simp add: parse_line_def LabelLine_init_def zero)
  qed
  have second_line: "parse_line m 0 ''  ADD foo: 0'' = Inr (InstructionLine 0 ''ADD'' [Lab ''foo:'', Adr 0])"
  proof -
    have "re_match (Pattern example_vm EmptyLineC) ''  ADD foo: 0'' = None"
      "re_match (Pattern example_vm OffsetLineC) ''  ADD foo: 0'' = None"
      "re_match (Pattern example_vm ValueLineC) ''  ADD foo: 0'' = None"
      by code_simp+
    then have first: "first_match m ''  ADD foo: 0'' = Some (InstructionLineC, Some [''ADD'', '' foo: 0''])"
      using instruction_line_label_reference [OF ids name]
      by (simp add: first_match_order Pattern_catalog_free)
    have args: "split (CHR '' '') (strip '' foo: 0'') = [''foo:'', ''0'']"
      by code_simp
    have "re_match HEX_NUMBER_PATTERN ''foo:'' = None" "re_match NUMBER_PATTERN ''foo:'' = None"
      "re_match LABEL_PATTERN ''foo:'' \<noteq> None" "Label ''foo:'' = Inr ''foo:''"
      by code_simp+
    then have label: "parse_address m ''foo:'' None = Inr (Lab ''foo:'')"
      by (simp add: parse_address_def parse_address_literal_def)
    have "re_match HEX_NUMBER_PATTERN ''0'' = None" "re_match NUMBER_PATTERN ''0'' \<noteq> None"
      "py_int 10 ''0'' = Some 0"
      by code_simp+
    then have literal: "parse_address m ''0'' None = Inr (Adr 0)"
      by (simp add: parse_address_def parse_address_literal_def int_to_address_def zero)
    show ?thesis
      by (simp add: parse_line_def first InstructionLine_init_def args add label literal zero)
  qed
  have empty: "parse_line m a [] = Inr (EmptyLine (to_value (Address m) a))" for a
  proof -
    have "re_match (Pattern example_vm EmptyLineC) [] \<noteq> None"
      by code_simp
    then show ?thesis
      by (auto simp: parse_line_def first_match_order Pattern_catalog_free)
  qed
  have "parse m ''foo:\<newline>  ADD foo: 0\<newline>'' =
      Inr [LabelLine 0 ''foo:'', InstructionLine 0 ''ADD'' [Lab ''foo:'', Adr 0],
           EmptyLine (to_value (Address m) 3)]"
    by (simp add: parse_def parse_lines_def first_line second_line empty)
  then have accepted: "compile m ''foo:\<newline>  ADD foo: 0\<newline>'' = Inr [Op ''ADD'', Adr 0, Adr 0]"
    by (simp add: compile_def compile_defs)
  have "re_match (Pattern example_vm EmptyLineC) ''  ADD foo 0'' = None"
    "re_match (Pattern example_vm OffsetLineC) ''  ADD foo 0'' = None"
    "re_match (Pattern example_vm ValueLineC) ''  ADD foo 0'' = None"
    "re_match (Pattern example_vm LabelLineC) ''  ADD foo 0'' = None"
    by code_simp+
  then have "first_match m ''  ADD foo 0'' = None"
    using instruction_line_bare_identifier [OF ids name]
    by (simp add: first_match_order Pattern_catalog_free)
  then have "parse_line m 0 ''  ADD foo 0'' = Inl (CompilationError ''Invalid syntax'')"
    by (simp add: parse_line_def)
  then have "parse m ''foo:\<newline>  ADD foo 0\<newline>'' = Inl (CompilationError ''Line 2: Invalid syntax'')"
    by (simp add: parse_def parse_lines_def first_line str_nat_digit digits_def)
  then have rejected: "compile m ''foo:\<newline>  ADD foo 0\<newline>'' =
      Inl (CompilationError ''Line 2: Invalid syntax'')"
    by (simp add: compile_def)
  from accepted rejected show ?thesis by simp
qed

theorem label_reference_with_colon_witness:
  "map_of (Instructions example_vm) ''ADD'' = Some 2
   \<and> list_all is_identifier (map fst (Instructions example_vm))
   \<and> 0 < bits (Address example_vm)
   \<and> compile example_vm ''foo:\<newline>  ADD foo: 0\<newline>'' = Inr [Op ''ADD'', Adr 0, Adr 0]
   \<and> compile example_vm ''foo:\<newline>  ADD foo 0\<newline>'' = Inl (CompilationError ''Line 2: Invalid syntax'')"
proof -
  have a: "map_of (Instructions example_vm) ''ADD'' = Some 2"
    by (simp add: example_vm_def)
  have l: "list_all is_identifier (map fst (Instructions example_vm))"
    by (simp add: example_vm_def is_identifier_def letters_def digits_def)
  have b: "0 < bits (Address example_vm)"
    by (simp add: example_vm_def c_ubyte_def)
  from label_reference_with_colon [OF a l b] a l b show ?thesis by simp
qed

text \<open>
  Claim C2 says that compiling fails with the error of a duplicated label if and only if
  two \<open>LabelLine\<close>s have the same identifier. The compiler does not: the text \<open>a:\<close>,
  \<open>a:\<close> parses into two \<open>LabelLine\<close>s with the label \<open>a:\<close> and compiles, to no
  words, without any error. The first version of \<open>compile\<close>, kept as a comment in the
  source, raises the error; the version in use builds the table by a dictionary
  comprehension, in which the later line replaces the earlier one (lemma
  \<open>compile_after_parse\<close>).
\<close>

theorem duplicate_label_compiles:
  "parse example_vm ''a:\<newline>a:\<newline>'' = Inr [LabelLine 0 ''a:'', LabelLine 0 ''a:'', EmptyLine 0]
   \<and> compile example_vm ''a:\<newline>a:\<newline>'' = Inr []"
  by code_simp

text \<open>
  Claim C3 says that a reference to a label that no \<open>LabelLine\<close> declares fails with a
  \<open>CompilationError\<close>. The compiler raises the \<open>KeyError\<close> of the dictionary instead:
  \<open>JMP x:\<close> alone compiles to \<open>KeyError\<close> with the key \<open>x:\<close>. The lookup of
  \<open>parse_address\<close> in a table of labels does turn the missing key into a
  \<open>CompilationError\<close>.
\<close>

theorem undefined_label_key_error:
  "compile example_vm ''JMP x:'' = Inl (KeyError ''x:'')
   \<and> parse_address example_vm ''x:'' (Some Map.empty) = Inl (CompilationError ''Invalid label x:'')"
  by code_simp

text \<open>
  Claim C4 says that the address of a line is the address of the line before plus the
  number of words of that line. The parser counts the words in an unbounded integer and
  stamps each line with \<open>Address(line_address)\<close>, which keeps the low bits only: with
  addresses of one unsigned byte, the text \<open>Offset 255\<close>, \<open>1\<close>, \<open>1\<close> parses without
  error, the second line is at address 255 and has one word, and the third line is at
  address 0, not 256. An address written in the source is checked: 256 is rejected as out
  of range. Lemma \<open>parse_from_address\<close> gives the address of every line as the wrapped
  sum.
\<close>

theorem address_counter_wraps:
  "parse example_vm ''Offset 255\<newline>1\<newline>1'' = Inr [OffsetLine 0 255, ValueLine 255 1, ValueLine 0 1]
   \<and> address (ValueLine 0 1) \<noteq> address (ValueLine 255 1) + produced_bytes_padded_num (ValueLine 255 1)
   \<and> parse_address_literal example_vm ''256'' = Inl (CompilationError ''Value 256 is out of range'')"
  by code_simp

text \<open>
  Claim C5. For every line, the parser tries the patterns in the order \<open>EmptyLine\<close>,
  \<open>OffsetLine\<close>, \<open>ValueLine\<close>, \<open>InstructionLine\<close>, \<open>LabelLine\<close> and takes the first
  that matches; every match of a pattern consumes the whole line, up to a final newline;
  the line object is constructed by the class found, from the groups of the match; and
  when no pattern matches, after lines that parsed, parsing fails with the error of an
  invalid syntax, whose message starts with the number of the line, counted from 1.
\<close>

theorem line_classification:
  "first_match m ln =
     (if re_match (Pattern m EmptyLineC) ln \<noteq> None
        then Some (EmptyLineC, re_match (Pattern m EmptyLineC) ln)
      else if re_match (Pattern m OffsetLineC) ln \<noteq> None
        then Some (OffsetLineC, re_match (Pattern m OffsetLineC) ln)
      else if re_match (Pattern m ValueLineC) ln \<noteq> None
        then Some (ValueLineC, re_match (Pattern m ValueLineC) ln)
      else if re_match (Pattern m InstructionLineC) ln \<noteq> None
        then Some (InstructionLineC, re_match (Pattern m InstructionLineC) ln)
      else if re_match (Pattern m LabelLineC) ln \<noteq> None
        then Some (LabelLineC, re_match (Pattern m LabelLineC) ln)
      else None)
   \<and> (\<forall>st\<in>set (run (Pattern m c) ([], ln, [])). remaining st = [] \<or> remaining st = [CHR 0x0A])
   \<and> (first_match m ln = Some (c, Some gs) \<longrightarrow>
        parse_line m a ln = construct m c (to_value (Address m) a) gs)
   \<and> (first_match m ln = None \<and> parse_lines m pre = Inr ls \<longrightarrow>
        parse_lines m (pre @ ln # post) =
          Inl (CompilationError (''Line '' @ str_nat (length pre + 1) @ '': Invalid syntax'')))"
proof (intro conjI)
  show "first_match m ln =
     (if re_match (Pattern m EmptyLineC) ln \<noteq> None
        then Some (EmptyLineC, re_match (Pattern m EmptyLineC) ln)
      else if re_match (Pattern m OffsetLineC) ln \<noteq> None
        then Some (OffsetLineC, re_match (Pattern m OffsetLineC) ln)
      else if re_match (Pattern m ValueLineC) ln \<noteq> None
        then Some (ValueLineC, re_match (Pattern m ValueLineC) ln)
      else if re_match (Pattern m InstructionLineC) ln \<noteq> None
        then Some (InstructionLineC, re_match (Pattern m InstructionLineC) ln)
      else if re_match (Pattern m LabelLineC) ln \<noteq> None
        then Some (LabelLineC, re_match (Pattern m LabelLineC) ln)
      else None)"
    by (rule first_match_order)
  show "\<forall>st\<in>set (run (Pattern m c) ([], ln, [])). remaining st = [] \<or> remaining st = [CHR 0x0A]"
    by (blast dest: run_Pattern_whole_line)
  show "first_match m ln = Some (c, Some gs) \<longrightarrow>
        parse_line m a ln = construct m c (to_value (Address m) a) gs"
    by (simp add: parse_line_def)
  show "first_match m ln = None \<and> parse_lines m pre = Inr ls \<longrightarrow>
        parse_lines m (pre @ ln # post) =
          Inl (CompilationError (''Line '' @ str_nat (length pre + 1) @ '': Invalid syntax''))"
    by (blast intro: parse_lines_invalid_syntax)
qed

theorem line_classification_witness:
  "first_match example_vm ''7 # seven'' = Some (ValueLineC, Some [''7''])
   \<and> parse_line example_vm 1 ''7 # seven'' = construct example_vm ValueLineC 1 [''7'']
   \<and> first_match example_vm ''BADOP 1'' = None
   \<and> parse_lines example_vm [''5''] = Inr [ValueLine 0 5]
   \<and> parse_lines example_vm [''5'', ''BADOP 1'', ''7''] = Inl (CompilationError ''Line 2: Invalid syntax'')
   \<and> map remaining (run (Pattern example_vm ValueLineC) ([], ''7 # seven'', [])) = [[]]"
proof -
  have f: "first_match example_vm ''7 # seven'' = Some (ValueLineC, Some [''7''])"
    by code_simp
  have n: "first_match example_vm ''BADOP 1'' = None"
    by code_simp
  have p: "parse_lines example_vm [''5''] = Inr [ValueLine 0 5]"
    by code_simp
  have t: "to_value (Address example_vm) 1 = 1"
    by code_simp
  have s: "''Line '' @ str_nat (length [''5''] + 1) @ '': Invalid syntax'' = ''Line 2: Invalid syntax''"
    by code_simp
  have r: "map remaining (run (Pattern example_vm ValueLineC) ([], ''7 # seven'', [])) = [[]]"
    by code_simp
  from line_classification [of example_vm "''7 # seven''" ValueLineC "[''7'']" 1]
    line_classification [of example_vm "''BADOP 1''" ValueLineC "[]" 0 "[''5'']" "[ValueLine 0 5]" "[''7'']"]
    f n p t s r
  show ?thesis by simp
qed

text \<open>
  Claim C6. The source text \<open>5\<close>, \<open>Offset 3\<close>, \<open>7\<close>, each followed by a newline,
  parses to the \<open>ValueLine\<close> 5 at address 0, the \<open>OffsetLine\<close> of offset 3 at address 1,
  the \<open>ValueLine\<close> 7 at address 3 and the empty line after the last newline; the
  value lines have one word each and the offset line 3 - 1 = 2 words, which are padding
  words of value 0; and the text compiles to the words 5, 0, 0, 7. This holds on every
  machine whose numbers can hold 7 and whose addresses can hold 3.
\<close>

theorem scenario_padding:
  assumes "7 \<le> range_max (NativeNumber m)" and "3 \<le> range_max (Address m)"
  shows "parse m ''5\<newline>Offset 3\<newline>7\<newline>'' =
           Inr [ValueLine 0 5, OffsetLine 1 3, ValueLine 3 7, EmptyLine (to_value (Address m) 4)]
       \<and> (case parse m ''5\<newline>Offset 3\<newline>7\<newline>'' of Inl e \<Rightarrow> [] | Inr ls \<Rightarrow> map address ls) =
           [0, 1, 3, to_value (Address m) 4]
       \<and> (case parse m ''5\<newline>Offset 3\<newline>7\<newline>'' of
             Inl e \<Rightarrow> [] | Inr ls \<Rightarrow> map produced_bytes_padded_num ls) = [1, 2, 1, 0]
       \<and> (case parse m ''5\<newline>Offset 3\<newline>7\<newline>'' of
             Inl e \<Rightarrow> Inl e | Inr ls \<Rightarrow> map_result produce_bytes_padded ls) =
           Inr [[Num 5], [Num 0, Num 0], [Num 7], []]
       \<and> compile m ''5\<newline>Offset 3\<newline>7\<newline>'' = Inr [Num 5, Num 0, Num 0, Num 7]"
proof -
  have nn: "to_value (NativeNumber m) 5 = 5" "to_value (NativeNumber m) 7 = 7"
    using assms(1) by (simp_all add: to_value_in_range)
  have ad: "to_value (Address m) 0 = 0" "to_value (Address m) 1 = 1" "to_value (Address m) 3 = 3"
    using assms(2) by (simp_all add: to_value_in_range)
  have l1: "parse_line m 0 ''5'' = Inr (ValueLine 0 5)"
    using nn ad by (simp add: line_defs)
  have l2: "parse_line m 1 ''Offset 3'' = Inr (OffsetLine 1 3)"
    using nn ad by (simp add: line_defs)
  have l3: "parse_line m 3 ''7'' = Inr (ValueLine 3 7)"
    using nn ad by (simp add: line_defs)
  have l4: "parse_line m 4 [] = Inr (EmptyLine (to_value (Address m) 4))"
    by (simp add: line_defs)
  have p: "parse m ''5\<newline>Offset 3\<newline>7\<newline>'' =
      Inr [ValueLine 0 5, OffsetLine 1 3, ValueLine 3 7, EmptyLine (to_value (Address m) 4)]"
    by (simp add: parse_def parse_lines_def l1 l2 l3 l4)
  have w: "map_result produce_bytes_padded
            [ValueLine 0 5, OffsetLine 1 3, ValueLine 3 7, EmptyLine (to_value (Address m) 4)] =
           Inr [[Num 5], [Num 0, Num 0], [Num 7], []]"
    by (simp add: produce_bytes_padded_def eval_nat_numeral)
  have c: "compile m ''5\<newline>Offset 3\<newline>7\<newline>'' = Inr [Num 5, Num 0, Num 0, Num 7]"
    using p by (simp add: compile_def compile_defs eval_nat_numeral)
  show ?thesis
    unfolding p c using w by simp
qed

theorem scenario_padding_witness:
  "7 \<le> range_max (NativeNumber example_vm) \<and> 3 \<le> range_max (Address example_vm)
   \<and> parse example_vm ''5\<newline>Offset 3\<newline>7\<newline>'' =
        Inr [ValueLine 0 5, OffsetLine 1 3, ValueLine 3 7, EmptyLine 4]
   \<and> map_result produce_bytes_padded [ValueLine 0 5, OffsetLine 1 3, ValueLine 3 7, EmptyLine 4] =
        Inr [[Num 5], [Num 0, Num 0], [Num 7], []]
   \<and> compile example_vm ''5\<newline>Offset 3\<newline>7\<newline>'' = Inr [Num 5, Num 0, Num 0, Num 7]"
proof -
  have h: "7 \<le> range_max (NativeNumber example_vm)" "3 \<le> range_max (Address example_vm)"
    by (simp_all add: example_vm_def c_ubyte_def range_max_def)
  have t: "to_value (Address example_vm) 4 = 4"
    by code_simp
  from scenario_padding [OF h] h t show ?thesis
    by (clarsimp simp del: map_result.simps)
qed

text \<open>
  Claim C7, as stated, fails. The literal of 4301 zeros followed by \<open>5\<close> is a decimal
  literal and denotes 5, which is in the range of \<open>NativeNumber\<close> and of \<open>Address\<close>
  of the example machine; but \<open>int()\<close> refuses a decimal text of more than 4300 digits,
  so \<open>parse_number\<close> and \<open>parse_address_literal\<close> fail with a \<open>ValueError\<close>: they
  neither return 5 nor fail with the error of a value out of range.
\<close>

theorem long_literal_value_error:
  "positional_value 10 (replicate 4301 (CHR ''0'') @ ''5'') = 5
   \<and> range_min (NativeNumber example_vm) \<le> 5 \<and> 5 \<le> range_max (NativeNumber example_vm)
   \<and> range_min (Address example_vm) \<le> 5 \<and> 5 \<le> range_max (Address example_vm)
   \<and> parse_number example_vm (replicate 4301 (CHR ''0'') @ ''5'') = Inl ValueError
   \<and> parse_address_literal example_vm (replicate 4301 (CHR ''0'') @ ''5'') = Inl ValueError"
proof -
  have n: "int_max_str_digits < 4301"
    by (simp add: int_max_str_digits_def)
  have r: "range_min (NativeNumber example_vm) \<le> 5" "5 \<le> range_max (NativeNumber example_vm)"
    "range_min (Address example_vm) \<le> 5" "5 \<le> range_max (Address example_vm)"
    by (simp_all add: range_min_def range_max_def example_vm_def c_ubyte_def)
  show ?thesis
    by (simp only: long_decimal_literal [OF n] r simp_thms)
qed

text \<open>
  Claim C7, amended. A literal is an optional sign followed by decimal digits, or by
  \<open>0x\<close> and hexadecimal digits. A decimal literal of more than 4300 digits fails with a
  \<open>ValueError\<close>. For every other literal, \<open>parse_number\<close> returns the integer it denotes
  when that integer is in the range of \<open>NativeNumber\<close>; otherwise it fails with the error
  of a value out of range, in particular one past either end of the range, unless the
  decimal text of the integer has more than 4300 digits (which only a hexadecimal
  literal can reach), where formatting the message fails with a \<open>ValueError\<close>.
  \<open>parse_address_literal\<close> does the same with the range of \<open>Address\<close>.
\<close>

theorem literal_round_trip:
  assumes "is_sign sg"
    and "ds \<noteq> []" and "set ds \<subseteq> set digits"
    and "hs \<noteq> []" and "set hs \<subseteq> set hex_digits"
    and "0 < bits (NativeNumber m)" and "0 < bits (Address m)"
    and "d = signed_value sg (positional_value 10 ds)"
    and "h = signed_value sg (positional_value 16 hs)"
  shows "parse_number m (sg @ ds) =
           (if int_max_str_digits < length ds then Inl ValueError
            else if range_min (NativeNumber m) \<le> d \<and> d \<le> range_max (NativeNumber m) then Inr d
            else Inl (out_of_range d))
       \<and> parse_number m (sg @ ''0x'' @ hs) =
           (if range_min (NativeNumber m) \<le> h \<and> h \<le> range_max (NativeNumber m) then Inr h
            else if int_max_str_digits < length (str_nat (nat \<bar>h\<bar>)) then Inl ValueError
            else Inl (out_of_range h))
       \<and> parse_address_literal m (sg @ ds) =
           (if int_max_str_digits < length ds then Inl ValueError
            else if range_min (Address m) \<le> d \<and> d \<le> range_max (Address m) then Inr d
            else Inl (out_of_range d))
       \<and> parse_address_literal m (sg @ ''0x'' @ hs) =
           (if range_min (Address m) \<le> h \<and> h \<le> range_max (Address m) then Inr h
            else if int_max_str_digits < length (str_nat (nat \<bar>h\<bar>)) then Inl ValueError
            else Inl (out_of_range h))"
proof -
  have f: "\<not> int_max_str_digits < length (str_nat (nat \<bar>d\<bar>))" if "\<not> int_max_str_digits < length ds"
    using decimal_literal_formats [OF assms(2,3), of sg] that assms(8) by simp
  have dn: "parse_number m (sg @ ds) =
      (if int_max_str_digits < length ds then Inl ValueError else int_to_native_number m d)"
    and da: "parse_address_literal m (sg @ ds) =
      (if int_max_str_digits < length ds then Inl ValueError else int_to_address m d)"
    using parse_decimal [OF assms(1-3)] assms(8) by simp_all
  have hn: "parse_number m (sg @ ''0x'' @ hs) = int_to_native_number m h"
    and ha: "parse_address_literal m (sg @ ''0x'' @ hs) = int_to_address m h"
    using parse_hexadecimal [OF assms(1,4,5)] assms(9) by simp_all
  show ?thesis
    unfolding dn da hn ha int_to_native_number_range [OF assms(6)] int_to_address_range [OF assms(7)]
    using f by simp
qed

theorem literal_round_trip_witness:
  "range_min (NativeNumber example_vm) = 0 \<and> range_max (NativeNumber example_vm) = 255
   \<and> parse_number example_vm ''255'' = Inr 255
   \<and> parse_number example_vm ''0x100'' = Inl (CompilationError ''Value 256 is out of range'')
   \<and> parse_address_literal example_vm ''255'' = Inr 255
   \<and> parse_address_literal example_vm ''0x100'' = Inl (CompilationError ''Value 256 is out of range'')
   \<and> parse_number example_vm ''-1'' = Inl (CompilationError ''Value -1 is out of range'')
   \<and> parse_number example_vm ''-0x0'' = Inr 0
   \<and> parse_number example_vm (replicate 4299 (CHR ''0'') @ ''5'') = Inr 5
   \<and> parse_address_literal example_vm (replicate 4299 (CHR ''0'') @ ''5'') = Inr 5"
proof -
  let ?ds = "replicate 4299 (CHR ''0'') @ ''5''"
  have z: "?ds \<noteq> []" "set ?ds \<subseteq> set digits" "\<not> int_max_str_digits < length ?ds"
    "(5::int) = signed_value [] (positional_value 10 ?ds)"
    using long_decimal_literal_facts [of 4299]
    by (simp_all add: signed_value_def int_max_str_digits_def)
  have r: "range_min (NativeNumber example_vm) = 0" "range_max (NativeNumber example_vm) = 255"
    "range_min (Address example_vm) = 0" "range_max (Address example_vm) = 255"
    by (simp_all add: range_min_def range_max_def example_vm_def c_ubyte_def)
  have b: "0 < bits (NativeNumber example_vm)" "0 < bits (Address example_vm)"
    by (simp_all add: example_vm_def c_ubyte_def)
  have v: "(255::int) = signed_value [] (positional_value 10 ''255'')"
    "(256::int) = signed_value [] (positional_value 16 ''100'')"
    "(- 1::int) = signed_value ''-'' (positional_value 10 ''1'')"
    "(0::int) = signed_value ''-'' (positional_value 16 ''0'')"
    by (simp_all add: signed_value_def positional_value_def digit_of_char_def)
  have s: "out_of_range 256 = CompilationError ''Value 256 is out of range''"
    "out_of_range (- 1) = CompilationError ''Value -1 is out of range''"
    by code_simp+
  have k: "\<not> int_max_str_digits < length ''255''" "\<not> int_max_str_digits < length ''1''"
    "\<not> int_max_str_digits < length (str_nat (nat \<bar>256\<bar>))"
    by code_simp+
  have g: "is_sign []" "is_sign ''-''" "set ''255'' \<subseteq> set digits" "set ''100'' \<subseteq> set hex_digits"
    "set ''1'' \<subseteq> set digits" "set ''0'' \<subseteq> set hex_digits"
    by (simp_all add: is_sign_def digits_def hex_digits_def)
  have t: "parse_number example_vm ?ds = Inr 5" "parse_address_literal example_vm ?ds = Inr 5"
    using literal_round_trip [OF g(1) z(1) z(2) _ g(4) b z(4) v(2)] z(3) r
    by (simp_all)
  from literal_round_trip [OF g(1) _ g(3) _ g(4) b v(1) v(2)]
    literal_round_trip [OF g(2) _ g(5) _ g(6) b v(3) v(4)] r s k
  have "range_min (NativeNumber example_vm) = 0 \<and> range_max (NativeNumber example_vm) = 255
   \<and> parse_number example_vm ''255'' = Inr 255
   \<and> parse_number example_vm ''0x100'' = Inl (CompilationError ''Value 256 is out of range'')
   \<and> parse_address_literal example_vm ''255'' = Inr 255
   \<and> parse_address_literal example_vm ''0x100'' = Inl (CompilationError ''Value 256 is out of range'')
   \<and> parse_number example_vm ''-1'' = Inl (CompilationError ''Value -1 is out of range'')
   \<and> parse_number example_vm ''-0x0'' = Inr 0"
    by simp
  with t show ?thesis
    by (simp only: simp_thms)
qed

text \<open>
  Claim C8. An \<open>OffsetLine\<close> whose offset is less than the address it is constructed at
  fails with the error of an invalid offset, and one whose offset is at least that
  address is accepted. So the text \<open>5\<close>, \<open>Offset 0\<close> fails, the error carrying the
  line number 2, and the text \<open>Offset 2\<close>, \<open>1\<close> compiles, on every machine whose
  numbers can hold 5 and whose addresses can hold 2.
\<close>

theorem offset_backwards_rejected:
  assumes "5 \<le> range_max (NativeNumber m)" and "2 \<le> range_max (Address m)"
  shows "(parse_address_literal m s = Inr off \<longrightarrow>
            OffsetLine_init m a s =
              (if off < a
               then Inl (CompilationError (''Inavalid offset '' @ str_int off @ '' at '' @ str_int a))
               else Inr (OffsetLine a off)))
       \<and> parse m ''5\<newline>Offset 0\<newline>'' = Inl (CompilationError ''Line 2: Inavalid offset 0 at 1'')
       \<and> compile m ''5\<newline>Offset 0\<newline>'' = Inl (CompilationError ''Line 2: Inavalid offset 0 at 1'')
       \<and> compile m ''Offset 2\<newline>1\<newline>'' = Inr [Num 0, Num 0, Num 1]"
proof -
  have nn: "to_value (NativeNumber m) 5 = 5" "to_value (NativeNumber m) 1 = 1"
    using assms(1) by (simp_all add: to_value_in_range)
  have ad: "to_value (Address m) 0 = 0" "to_value (Address m) 1 = 1" "to_value (Address m) 2 = 2"
    using assms(2) by (simp_all add: to_value_in_range)
  have l1: "parse_line m 0 ''5'' = Inr (ValueLine 0 5)"
    using nn ad by (simp add: line_defs)
  have l2: "parse_line m 1 ''Offset 0'' = Inl (CompilationError ''Inavalid offset 0 at 1'')"
    using nn ad by (simp add: line_defs str_int_def str_nat_digit digits_def)
  have bad: "parse m ''5\<newline>Offset 0\<newline>'' = Inl (CompilationError ''Line 2: Inavalid offset 0 at 1'')"
    by (simp add: parse_def parse_lines_def l1 l2 str_nat_digit digits_def)
  have k1: "parse_line m 0 ''Offset 2'' = Inr (OffsetLine 0 2)"
    using nn ad by (simp add: line_defs)
  have k2: "parse_line m 2 ''1'' = Inr (ValueLine 2 1)"
    using nn ad by (simp add: line_defs)
  have k3: "parse_line m 3 '''' = Inr (EmptyLine (to_value (Address m) 3))"
    by (simp add: line_defs)
  have "parse m ''Offset 2\<newline>1\<newline>'' =
      Inr [OffsetLine 0 2, ValueLine 2 1, EmptyLine (to_value (Address m) 3)]"
    by (simp add: parse_def parse_lines_def k1 k2 k3)
  then have good: "compile m ''Offset 2\<newline>1\<newline>'' = Inr [Num 0, Num 0, Num 1]"
    by (simp add: compile_def compile_defs eval_nat_numeral)
  have "OffsetLine_init m a s =
          (if off < a
           then Inl (CompilationError (''Inavalid offset '' @ str_int off @ '' at '' @ str_int a))
           else Inr (OffsetLine a off))"
    if "parse_address_literal m s = Inr off"
    using that by (simp add: OffsetLine_init_def)
  with bad good show ?thesis by (simp add: compile_def)
qed

theorem offset_backwards_rejected_witness:
  "5 \<le> range_max (NativeNumber example_vm) \<and> 2 \<le> range_max (Address example_vm)
   \<and> parse_address_literal example_vm ''0x10'' = Inr 16
   \<and> OffsetLine_init example_vm 17 ''0x10'' = Inl (CompilationError ''Inavalid offset 16 at 17'')
   \<and> OffsetLine_init example_vm 16 ''0x10'' = Inr (OffsetLine 16 16)
   \<and> compile example_vm ''5\<newline>Offset 0\<newline>'' = Inl (CompilationError ''Line 2: Inavalid offset 0 at 1'')"
proof -
  have h: "5 \<le> range_max (NativeNumber example_vm)" "2 \<le> range_max (Address example_vm)"
    by (simp_all add: example_vm_def c_ubyte_def range_max_def)
  have p: "parse_address_literal example_vm ''0x10'' = Inr 16"
    by code_simp
  have s: "str_int 16 = ''16''" "str_int 17 = ''17''"
    by code_simp+
  from offset_backwards_rejected [OF h, of "''0x10''" 16 17]
    offset_backwards_rejected [OF h, of "''0x10''" 16 16] h p s
  show ?thesis by simp
qed

text \<open>
  Claim C9, as stated, fails. A program without any \<open>LabelLine\<close> can still refer to a
  label: the text \<open>NOP\<close>, \<open>JMP x:\<close> parses into two instruction lines and its
  compilation fails in the resolution of \<open>x:\<close>.
\<close>

theorem no_label_line_key_error:
  "parse example_vm ''NOP\<newline>JMP x:'' =
     Inr [InstructionLine 0 ''NOP'' [], InstructionLine 1 ''JMP'' [Lab ''x:'']]
   \<and> compile example_vm ''NOP\<newline>JMP x:'' = Inl (KeyError ''x:'')"
  by code_simp

text \<open>
  Claim C9, amended. For every program that parses and none of whose lines has a label
  among its words, compilation succeeds: the result is the words of the lines, each
  padded, in the order of the lines. Resolution fails for no such program.
\<close>

theorem no_label_reference_compiles:
  assumes "parse m src = Inr parsed"
    and "concat (map references parsed) = []"
  shows "compile m src = Inr (concat (map padded_bytes parsed))"
proof -
  from assms(2) have "\<forall>ln\<in>set parsed. \<forall>l. Lab l \<notin> set (produced_bytes ln)"
    by (auto dest: references_Nil)
  from compile_parsed_no_labels [OF parse_padded_ok [OF assms(1)] this] assms(1)
  show ?thesis by (simp add: compile_def)
qed

theorem no_label_reference_compiles_witness:
  "parse example_vm ''NOP\<newline>Offset 3\<newline>JMP 0'' =
     Inr [InstructionLine 0 ''NOP'' [], OffsetLine 1 3, InstructionLine 3 ''JMP'' [Adr 0]]
   \<and> concat (map references [InstructionLine 0 ''NOP'' [], OffsetLine 1 3,
        InstructionLine 3 ''JMP'' [Adr 0]]) = []
   \<and> compile example_vm ''NOP\<newline>Offset 3\<newline>JMP 0'' = Inr [Op ''NOP'', Num 0, Num 0, Op ''JMP'', Adr 0]"
proof -
  have p: "parse example_vm ''NOP\<newline>Offset 3\<newline>JMP 0'' =
     Inr [InstructionLine 0 ''NOP'' [], OffsetLine 1 3, InstructionLine 3 ''JMP'' [Adr 0]]"
    by code_simp
  have n: "concat (map references [InstructionLine 0 ''NOP'' [], OffsetLine 1 3,
        InstructionLine 3 ''JMP'' [Adr 0]]) = []"
    by code_simp
  have c: "concat (map padded_bytes [InstructionLine 0 ''NOP'' [], OffsetLine 1 3,
      InstructionLine 3 ''JMP'' [Adr 0]]) = [Op ''NOP'', Num 0, Num 0, Op ''JMP'', Adr 0]"
    by code_simp
  from no_label_reference_compiles [OF p n] p n c show ?thesis by simp
qed

text \<open>
  Claim C10. There are strings whose beginning is a number but which are no number as a
  whole, such as \<open>0xg\<close> and \<open>123abc\<close>, on which \<open>parse_number\<close> and
  \<open>parse_address_literal\<close> raise the \<open>ValueError\<close> of \<open>int()\<close> and no
  \<open>CompilationError\<close>: \<open>re.match\<close> accepts the beginning of the string, the pattern of
  a number having no anchor at its end, and \<open>int()\<close> then reads the whole string.
\<close>

theorem unanchored_number_value_error:
  "parse_number m ''0xg'' = Inl ValueError \<and> parse_number m ''123abc'' = Inl ValueError
   \<and> parse_address_literal m ''0xg'' = Inl ValueError
   \<and> parse_address_literal m ''123abc'' = Inl ValueError
   \<and> re_match NUMBER_PATTERN ''0xg'' \<noteq> None \<and> re_match (Seq NUMBER_PATTERN Eol) ''0xg'' = None
   \<and> re_match NUMBER_PATTERN ''123abc'' \<noteq> None \<and> re_match (Seq NUMBER_PATTERN Eol) ''123abc'' = None"
  by (simp add: parse_number_def parse_address_literal_def re_match_def number_defs int_defs
      digits_def hex_digits_def)

end
